theory Spec2Isabelle
  imports Main "HOL-Library.Word"
begin

unbundle bit_operations_syntax

section \<open>Vocabulary\<close>

text \<open>
  The vocabulary of \<^verbatim>\<open>types.ts\<close> as the code under \<^verbatim>\<open>util.ts\<close> and the FEN module
  uses it. A \<^verbatim>\<open>Color\<close> and a \<^verbatim>\<open>Role\<close> are string-literal unions, a \<^verbatim>\<open>Square\<close> is a
  JavaScript number holding an integer, a \<^verbatim>\<open>Move\<close> is either
  \<^verbatim>\<open>{from, to, promotion?}\<close> or \<^verbatim>\<open>{role, to}\<close>, told apart by \<^verbatim>\<open>isDrop\<close>.

  A JavaScript string is modelled as a \<^typ>\<open>string\<close>: a list of code units, each
  below 256 (the Latin-1 range of UTF-16).
\<close>

datatype Color = White | Black

datatype Role = Pawn | Knight | Bishop | Rook | Queen | King

type_synonym Square = int

datatype Move = Normal Square Square "Role option" | Drop Role Square

text \<open>
  A \<^verbatim>\<open>Result\<close> is either \<^verbatim>\<open>ok\<close> with a value or \<^verbatim>\<open>err\<close> with an error, with the
  two combinators the code uses on it.
\<close>

datatype ('a, 'e) Result = Ok 'a | Err 'e

fun chain :: "('a, 'e) Result \<Rightarrow> ('a \<Rightarrow> ('b, 'e) Result) \<Rightarrow> ('b, 'e) Result" where
  "chain (Ok v) f = f v"
| "chain (Err e) f = Err e"

fun mapResult :: "('a, 'e) Result \<Rightarrow> ('a \<Rightarrow> 'b) \<Rightarrow> ('b, 'e) Result" where
  "mapResult (Ok v) f = Ok (f v)"
| "mapResult (Err e) f = Err e"

section \<open>String primitives of the host language\<close>

definition charCode :: "char \<Rightarrow> int" where
  "charCode c = int (of_char c)"

text \<open>\<^verbatim>\<open>str[i]\<close>: the code unit at an index, \<^verbatim>\<open>undefined\<close> outside the string.\<close>

definition charAt :: "string \<Rightarrow> int \<Rightarrow> char option" where
  "charAt str i = (if 0 \<le> i \<and> i < int (length str) then Some (str ! nat i) else None)"

text \<open>
  \<^verbatim>\<open>a + b\<close> where \<^verbatim>\<open>a\<close> is a string and \<^verbatim>\<open>b\<close> is \<^verbatim>\<open>str[i]\<close>: an \<^verbatim>\<open>undefined\<close>
  operand is converted to the text \<^verbatim>\<open>undefined\<close>.
\<close>

definition strOfIndexed :: "char option \<Rightarrow> string" where
  "strOfIndexed c = (case c of Some x \<Rightarrow> [x] | None \<Rightarrow> ''undefined'')"

text \<open>
  \<^verbatim>\<open>toLowerCase\<close> and \<^verbatim>\<open>toUpperCase\<close>. Lowering is exact on every code unit below
  256. Raising is exact on ASCII, which is all the code applies it to (the output of
  \<^verbatim>\<open>roleToChar\<close>).
\<close>

definition lowerChar :: "char \<Rightarrow> char" where
  "lowerChar c =
     (let n = charCode c in
      if (65 \<le> n \<and> n \<le> 90) \<or> (192 \<le> n \<and> n \<le> 222 \<and> n \<noteq> 215)
      then char_of (n + 32) else c)"

definition upperChar :: "char \<Rightarrow> char" where
  "upperChar c =
     (let n = charCode c in
      if 97 \<le> n \<and> n \<le> 122 then char_of (n - 32) else c)"

definition toLowerCase :: "string \<Rightarrow> string" where
  "toLowerCase str = map lowerChar str"

definition toUpperCase :: "string \<Rightarrow> string" where
  "toUpperCase str = map upperChar str"

section \<open>util.ts\<close>

definition opposite :: "Color \<Rightarrow> Color" where
  "opposite color = (if color = White then Black else White)"

text \<open>
  \<^verbatim>\<open>square >> 3\<close> and \<^verbatim>\<open>square & 0x7\<close>: both operands are first converted to a
  signed 32-bit integer, and the shift keeps the sign.
\<close>

definition squareRank :: "Square \<Rightarrow> int" where
  "squareRank square = sint (signed_drop_bit 3 (word_of_int square :: 32 word))"

definition squareFile :: "Square \<Rightarrow> int" where
  "squareFile square = sint ((word_of_int square :: 32 word) AND 7)"

fun roleToChar :: "Role \<Rightarrow> string" where
  "roleToChar Pawn = ''p''"
| "roleToChar Knight = ''n''"
| "roleToChar Bishop = ''b''"
| "roleToChar Rook = ''r''"
| "roleToChar Queen = ''q''"
| "roleToChar King = ''k''"

definition charToRole :: "string \<Rightarrow> Role option" where
  "charToRole ch =
     (if ch = ''P'' \<or> ch = ''p'' then Some Pawn
      else if ch = ''N'' \<or> ch = ''n'' then Some Knight
      else if ch = ''B'' \<or> ch = ''b'' then Some Bishop
      else if ch = ''R'' \<or> ch = ''r'' then Some Rook
      else if ch = ''Q'' \<or> ch = ''q'' then Some Queen
      else if ch = ''K'' \<or> ch = ''k'' then Some King
      else None)"

text \<open>The pattern \<^verbatim>\<open>/^[a-h][1-8]$/\<close>: exactly two code units, a file and a rank.\<close>

definition isSquareName :: "string \<Rightarrow> bool" where
  "isSquareName str =
     (case str of
        [f, r] \<Rightarrow> charCode CHR ''a'' \<le> charCode f \<and> charCode f \<le> charCode CHR ''h''
                 \<and> charCode CHR ''1'' \<le> charCode r \<and> charCode r \<le> charCode CHR ''8''
      | _ \<Rightarrow> False)"

definition parseSquare :: "string \<Rightarrow> Square option" where
  "parseSquare str =
     (if \<not> isSquareName str then None
      else Some (charCode (str ! 0) - charCode CHR ''a''
                 + 8 * (charCode (str ! 1) - charCode CHR ''1'')))"

definition makeSquare :: "Square \<Rightarrow> string" where
  "makeSquare square =
     strOfIndexed (charAt ''abcdefgh'' (squareFile square))
     @ strOfIndexed (charAt ''12345678'' (squareRank square))"

text \<open>
  \<^verbatim>\<open>str.slice(a, b)\<close> for the non-negative constant bounds \<^verbatim>\<open>parseUci\<close> passes.
\<close>

definition slice :: "string \<Rightarrow> nat \<Rightarrow> nat \<Rightarrow> string" where
  "slice str a b = take (b - a) (drop a str)"

definition parseUci :: "string \<Rightarrow> Move option" where
  "parseUci str =
     (if charAt str 1 = Some CHR ''@'' \<and> length str = 4 then
        (case (charToRole (strOfIndexed (charAt str 0)), parseSquare (drop 2 str)) of
           (Some role, Some to) \<Rightarrow> Some (Drop role to)
         | _ \<Rightarrow> None)
      else if length str = 4 \<or> length str = 5 then
        (let from = parseSquare (slice str 0 2);
             to = parseSquare (slice str 2 4)
         in if length str = 5 then
              (case charToRole (strOfIndexed (charAt str 4)) of
                 None \<Rightarrow> None
               | Some promotion \<Rightarrow>
                   (case (from, to) of
                      (Some f, Some t) \<Rightarrow> Some (Normal f t (Some promotion))
                    | _ \<Rightarrow> None))
            else
              (case (from, to) of
                 (Some f, Some t) \<Rightarrow> Some (Normal f t None)
               | _ \<Rightarrow> None))
      else None)"

fun makeUci :: "Move \<Rightarrow> string" where
  "makeUci (Drop role to) = toUpperCase (roleToChar role) @ ''@'' @ makeSquare to"
| "makeUci (Normal from to promotion) =
     makeSquare from @ makeSquare to
     @ (case promotion of Some r \<Rightarrow> roleToChar r | None \<Rightarrow> '''')"

section \<open>The second utility module\<close>

text \<open>
  The second module defines \<^verbatim>\<open>opposite\<close> and \<^verbatim>\<open>charToRole\<close> again, the latter with
  the result type of \<^verbatim>\<open>./fp\<close>: \<^verbatim>\<open>ok(role)\<close> or \<^verbatim>\<open>err()\<close>, an error that carries
  nothing.
\<close>

definition opposite_fp :: "Color \<Rightarrow> Color" where
  "opposite_fp color = (if color = White then Black else White)"

definition charToRole_fp :: "string \<Rightarrow> (Role, unit) Result" where
  "charToRole_fp c =
     (if c = ''p'' \<or> c = ''P'' then Ok Pawn
      else if c = ''n'' \<or> c = ''N'' then Ok Knight
      else if c = ''b'' \<or> c = ''B'' then Ok Bishop
      else if c = ''r'' \<or> c = ''R'' then Ok Rook
      else if c = ''q'' \<or> c = ''Q'' then Ok Queen
      else if c = ''k'' \<or> c = ''K'' then Ok King
      else Err ())"

section \<open>Well-formed moves\<close>

text \<open>A move as the claims take it: every square of it is an index from 0 to 63.\<close>

fun validMove :: "Move \<Rightarrow> bool" where
  "validMove (Normal from to promotion) = (0 \<le> from \<and> from \<le> 63 \<and> 0 \<le> to \<and> to \<le> 63)"
| "validMove (Drop role to) = (0 \<le> to \<and> to \<le> 63)"

section \<open>More primitives of the host language\<close>

definition defined :: "'a option \<Rightarrow> bool" where
  "defined v = (v \<noteq> None)"

text \<open>\<^verbatim>\<open>str.split(sep)\<close> with a separator of one code unit: empty pieces are kept.\<close>

fun splitOn :: "string \<Rightarrow> char \<Rightarrow> string list" where
  "splitOn [] sep = [[]]"
| "splitOn (c # cs) sep =
     (if c = sep then [] # splitOn cs sep
      else (case splitOn cs sep of [] \<Rightarrow> [[c]] | x # xs \<Rightarrow> (c # x) # xs))"

text \<open>\<^verbatim>\<open>parts.shift()\<close>: the first element (\<^verbatim>\<open>undefined\<close> on an empty array) and the rest.\<close>

definition shift :: "'a list \<Rightarrow> 'a option \<times> 'a list" where
  "shift xs = (case xs of [] \<Rightarrow> (None, []) | x # rest \<Rightarrow> (Some x, rest))"

text \<open>\<^verbatim>\<open>array.join(sep)\<close> on an array of strings.\<close>

fun join :: "string list \<Rightarrow> string \<Rightarrow> string" where
  "join [] sep = []"
| "join [x] sep = x"
| "join (x # y # ys) sep = x @ sep @ join (y # ys) sep"

definition isDigit :: "char \<Rightarrow> bool" where
  "isDigit c = (charCode CHR ''0'' \<le> charCode c \<and> charCode c \<le> charCode CHR ''9'')"

definition digitValue :: "char \<Rightarrow> int" where
  "digitValue c = charCode c - charCode CHR ''0''"

text \<open>\<^verbatim>\<open>parseInt(str, 10)\<close> on a string of decimal digits.\<close>

definition parseIntDigits :: "string \<Rightarrow> int" where
  "parseIntDigits str = foldl (\<lambda>acc c. 10 * acc + digitValue c) 0 str"

text \<open>
  \<^verbatim>\<open>parseInt(c, 10)\<close> on one code unit: the digit, or \<^verbatim>\<open>NaN\<close> (here \<open>None\<close>). A number
  is truthy when it is neither \<^verbatim>\<open>NaN\<close> nor 0.
\<close>

definition parseIntChar :: "char \<Rightarrow> int option" where
  "parseIntChar c = (if isDigit c then Some (digitValue c) else None)"

definition truthyNumber :: "int option \<Rightarrow> bool" where
  "truthyNumber v = (case v of None \<Rightarrow> False | Some n \<Rightarrow> n \<noteq> 0)"

text \<open>
  The decimal text of an integer, as string concatenation and \<^verbatim>\<open>join\<close> write it.
  JavaScript writes every digit of an integer whose absolute value is below \<open>10 ^ 21\<close>
  and an exponent form from there on; the text here is the one of the code in the first
  range only, and nothing below takes it outside that range.
\<close>

fun digitsOfNat :: "nat \<Rightarrow> string" where
  "digitsOfNat n =
     (if n < 10 then [char_of (48 + n)]
      else digitsOfNat (n div 10) @ [char_of (48 + n mod 10)])"

declare digitsOfNat.simps [simp del]

definition numberToString :: "int \<Rightarrow> string" where
  "numberToString n =
     (if n < 0 then CHR ''-'' # digitsOfNat (nat (- n)) else digitsOfNat (nat n))"

text \<open>
  \<^verbatim>\<open>str.indexOf(c, from)\<close>: the first index at or after \<^verbatim>\<open>from\<close> that holds
  \<^verbatim>\<open>c\<close>, or \<open>-1\<close>.
\<close>

fun firstIndex :: "char \<Rightarrow> string \<Rightarrow> int" where
  "firstIndex c [] = - 1"
| "firstIndex c (x # xs) =
     (if x = c then 0
      else (let i = firstIndex c xs in if i = - 1 then - 1 else i + 1))"

definition indexOf :: "string \<Rightarrow> char \<Rightarrow> int \<Rightarrow> int" where
  "indexOf str c from =
     (let k = nat (min (max from 0) (int (length str)));
          i = firstIndex c (drop k str)
      in if i = - 1 then - 1 else i + int k)"

text \<open>
  \<^verbatim>\<open>str.substr(start, length)\<close>; a negative start counts from the end, a negative length
  is no length at all. \<^verbatim>\<open>str.substr(start)\<close> runs to the end of the string.
\<close>

definition substrFrom :: "string \<Rightarrow> int \<Rightarrow> string" where
  "substrFrom str start =
     drop (nat (if start < 0 then max (int (length str) + start) 0 else start)) str"

definition substr :: "string \<Rightarrow> int \<Rightarrow> int \<Rightarrow> string" where
  "substr str start len = take (nat len) (substrFrom str start)"

definition endsWith :: "string \<Rightarrow> char \<Rightarrow> bool" where
  "endsWith str c = (str \<noteq> [] \<and> last str = c)"

definition includes_char :: "string \<Rightarrow> char \<Rightarrow> bool" where
  "includes_char str c = (c \<in> set str)"

section \<open>The second utility module, continued\<close>

text \<open>
  \<^verbatim>\<open>nthIndexOf\<close>: the loop runs at most \<^verbatim>\<open>n\<close> times (a count; the one call passes 7)
  and stops early once the needle is not found.
\<close>

fun nthIndexOf_loop :: "string \<Rightarrow> char \<Rightarrow> nat \<Rightarrow> int \<Rightarrow> int" where
  "nthIndexOf_loop haystack needle 0 index = index"
| "nthIndexOf_loop haystack needle (Suc n) index =
     (if index = - 1 then index
      else nthIndexOf_loop haystack needle n (indexOf haystack needle (index + 1)))"

definition nthIndexOf :: "string \<Rightarrow> char \<Rightarrow> nat \<Rightarrow> int" where
  "nthIndexOf haystack needle n = nthIndexOf_loop haystack needle n (indexOf haystack needle 0)"

definition strRepeat :: "string \<Rightarrow> int \<Rightarrow> string" where
  "strRepeat str num = concat (replicate (nat num) str)"

section \<open>The data model of the FEN module\<close>

datatype InvalidFen =
    ERR_FEN | ERR_BOARD | ERR_POCKETS | ERR_TURN | ERR_CASTLING | ERR_EP_SQUARE
  | ERR_REMAINING_CHECKS | ERR_HALFMOVES | ERR_FULLMOVES

datatype FenError = FenError InvalidFen

text \<open>
  What a call does with control: it returns a value, or it throws (a \<^verbatim>\<open>TypeError\<close>
  where a method is called on \<^verbatim>\<open>undefined\<close>).
\<close>

datatype 'a Completion = Returns 'a | Throws

text \<open>
  Modelled from the spec: the classes \<^verbatim>\<open>Piece\<close>, \<^verbatim>\<open>Board\<close>, \<^verbatim>\<open>SquareSet\<close>,
  \<^verbatim>\<open>Material\<close>, \<^verbatim>\<open>RemainingChecks\<close> and \<^verbatim>\<open>Setup\<close> and the constants \<^verbatim>\<open>COLORS\<close>
  and \<^verbatim>\<open>ROLES\<close> are imported by the FEN module and not part of the sources at hand.
  A piece is a role, a colour and the promoted mark (absent is false). A board assigns
  at most one piece to a square: \<^verbatim>\<open>set\<close> overwrites, \<^verbatim>\<open>get\<close> reads. A square set is
  a set of squares, walked in ascending order or, reversed, in descending order, with
  \<^verbatim>\<open>first\<close> its lowest and \<^verbatim>\<open>last\<close> its highest member.
\<close>

record Piece =
  role :: Role
  color :: Color
  promoted :: bool

definition COLORS :: "Color list" where
  "COLORS = [White, Black]"

definition ROLES :: "Role list" where
  "ROLES = [Pawn, Knight, Bishop, Rook, Queen, King]"

definition colorName :: "Color \<Rightarrow> string" where
  "colorName c = (if c = White then ''white'' else ''black'')"

type_synonym SquareSet = "Square set"

definition allSquares :: "Square list" where
  "allSquares = [0..63]"

definition SquareSet_empty :: SquareSet where
  "SquareSet_empty = {}"

definition SquareSet_with :: "SquareSet \<Rightarrow> Square \<Rightarrow> SquareSet" where
  "SquareSet_with s square = insert square s"

definition SquareSet_intersect :: "SquareSet \<Rightarrow> SquareSet \<Rightarrow> SquareSet" where
  "SquareSet_intersect s t = s \<inter> t"

definition SquareSet_fromRank :: "int \<Rightarrow> SquareSet" where
  "SquareSet_fromRank rank = Set.filter (\<lambda>sq. squareRank sq = rank) (set allSquares)"

definition SquareSet_reversed :: "SquareSet \<Rightarrow> Square list" where
  "SquareSet_reversed s = filter (\<lambda>sq. sq \<in> s) (rev allSquares)"

definition SquareSet_first :: "SquareSet \<Rightarrow> Square option" where
  "SquareSet_first s = List.find (\<lambda>sq. sq \<in> s) allSquares"

definition SquareSet_last :: "SquareSet \<Rightarrow> Square option" where
  "SquareSet_last s = List.find (\<lambda>sq. sq \<in> s) (rev allSquares)"

type_synonym Board = "Square \<Rightarrow> Piece option"

definition Board_empty :: Board where
  "Board_empty = (\<lambda>sq. None)"

definition Board_get :: "Board \<Rightarrow> Square \<Rightarrow> Piece option" where
  "Board_get board square = board square"

definition Board_set :: "Board \<Rightarrow> Square \<Rightarrow> Piece \<Rightarrow> Board" where
  "Board_set board square piece = board(square \<mapsto> piece)"

definition Board_pieces :: "Board \<Rightarrow> Color \<Rightarrow> Role \<Rightarrow> SquareSet" where
  "Board_pieces board c r =
     Set.filter (\<lambda>sq. case board sq of None \<Rightarrow> False | Some p \<Rightarrow> color p = c \<and> role p = r)
       (set allSquares)"

text \<open>The square of the one king of a colour; \<^verbatim>\<open>undefined\<close> with no king or several.\<close>

definition Board_kingOf :: "Board \<Rightarrow> Color \<Rightarrow> Square option" where
  "Board_kingOf board c =
     (case filter (\<lambda>sq. sq \<in> Board_pieces board c King) allSquares of
        [k] \<Rightarrow> Some k
      | _ \<Rightarrow> None)"

record MaterialSide =
  pawn :: int
  knight :: int
  bishop :: int
  rook :: int
  queen :: int
  king :: int

record Material =
  white :: MaterialSide
  black :: MaterialSide

definition MaterialSide_empty :: MaterialSide where
  "MaterialSide_empty = \<lparr>pawn = 0, knight = 0, bishop = 0, rook = 0, queen = 0, king = 0\<rparr>"

definition Material_empty :: Material where
  "Material_empty = \<lparr>white = MaterialSide_empty, black = MaterialSide_empty\<rparr>"

text \<open>\<^verbatim>\<open>side[role]\<close> and \<^verbatim>\<open>side[role]++\<close>.\<close>

fun MaterialSide_get :: "MaterialSide \<Rightarrow> Role \<Rightarrow> int" where
  "MaterialSide_get side Pawn = pawn side"
| "MaterialSide_get side Knight = knight side"
| "MaterialSide_get side Bishop = bishop side"
| "MaterialSide_get side Rook = rook side"
| "MaterialSide_get side Queen = queen side"
| "MaterialSide_get side King = king side"

fun MaterialSide_incr :: "MaterialSide \<Rightarrow> Role \<Rightarrow> MaterialSide" where
  "MaterialSide_incr side Pawn = side\<lparr>pawn := pawn side + 1\<rparr>"
| "MaterialSide_incr side Knight = side\<lparr>knight := knight side + 1\<rparr>"
| "MaterialSide_incr side Bishop = side\<lparr>bishop := bishop side + 1\<rparr>"
| "MaterialSide_incr side Rook = side\<lparr>rook := rook side + 1\<rparr>"
| "MaterialSide_incr side Queen = side\<lparr>queen := queen side + 1\<rparr>"
| "MaterialSide_incr side King = side\<lparr>king := king side + 1\<rparr>"

text \<open>\<^verbatim>\<open>pockets[color][role]++\<close>.\<close>

fun Material_incr :: "Material \<Rightarrow> Color \<Rightarrow> Role \<Rightarrow> Material" where
  "Material_incr pockets White r = pockets\<lparr>white := MaterialSide_incr (white pockets) r\<rparr>"
| "Material_incr pockets Black r = pockets\<lparr>black := MaterialSide_incr (black pockets) r\<rparr>"

datatype RemainingChecks = RemainingChecks int int

record FenOpts =
  promoted_opt :: bool
  shredder_opt :: bool
  epd_opt :: bool

section \<open>Reading FEN\<close>

text \<open>The pattern \<^verbatim>\<open>/^\d{1,4}$/\<close> and the decimal value of a text that matches it.\<close>

definition parseSmallUint :: "string \<Rightarrow> int option" where
  "parseSmallUint str =
     (if 1 \<le> length str \<and> length str \<le> 4 \<and> list_all isDigit str
      then Some (parseIntDigits str) else None)"

text \<open>
  \<^verbatim>\<open>charToPiece\<close> on a text of code units below 256. The section on code units beyond
  255 embeds it once more, with U+212A, which \<^verbatim>\<open>toLowerCase\<close> sends to \<^verbatim>\<open>k\<close>.
\<close>

definition charToPiece :: "string \<Rightarrow> Piece option" where
  "charToPiece ch =
     (let lower = toLowerCase ch in
      case charToRole lower of
        None \<Rightarrow> None
      | Some r \<Rightarrow>
          Some \<lparr>role = r, color = (if lower = ch then Black else White), promoted = False\<rparr>)"

text \<open>
  The loop of \<^verbatim>\<open>parseBoardFen\<close> over the code units still to read, with the board, the
  rank and the file it has reached. A piece followed by \<^verbatim>\<open>~\<close> consumes both.
\<close>

fun parseBoardFen_loop :: "string \<Rightarrow> Board \<Rightarrow> int \<Rightarrow> int \<Rightarrow> (Board, FenError) Result" where
  "parseBoardFen_loop [] board rank file =
     (if rank \<noteq> 0 \<or> file \<noteq> 8 then Err (FenError ERR_BOARD) else Ok board)"
| "parseBoardFen_loop (c # rest) board rank file =
     (if c = CHR ''/'' \<and> file = 8 then parseBoardFen_loop rest board (rank - 1) 0
      else
        (let step = parseIntChar c in
         if truthyNumber step then parseBoardFen_loop rest board rank (file + the step)
         else if file \<ge> 8 \<or> rank < 0 then Err (FenError ERR_BOARD)
         else
           (let square = file + rank * 8 in
            case charToPiece [c] of
              None \<Rightarrow> Err (FenError ERR_BOARD)
            | Some piece \<Rightarrow>
                (case rest of
                   [] \<Rightarrow> parseBoardFen_loop rest (Board_set board square piece) rank (file + 1)
                 | n # rest' \<Rightarrow>
                     if n = CHR ''~''
                     then parseBoardFen_loop rest'
                            (Board_set board square (piece\<lparr>promoted := True\<rparr>)) rank (file + 1)
                     else parseBoardFen_loop rest
                            (Board_set board square piece) rank (file + 1)))))"

definition parseBoardFen :: "string \<Rightarrow> (Board, FenError) Result" where
  "parseBoardFen boardPart = parseBoardFen_loop boardPart Board_empty 7 0"

fun parsePockets_loop :: "string \<Rightarrow> Material \<Rightarrow> (Material, FenError) Result" where
  "parsePockets_loop [] pockets = Ok pockets"
| "parsePockets_loop (c # rest) pockets =
     (case charToPiece [c] of
        None \<Rightarrow> Err (FenError ERR_POCKETS)
      | Some piece \<Rightarrow> parsePockets_loop rest (Material_incr pockets (color piece) (role piece)))"

definition parsePockets :: "string \<Rightarrow> (Material, FenError) Result" where
  "parsePockets pocketPart = parsePockets_loop pocketPart Material_empty"

text \<open>
  The pattern \<^verbatim>\<open>/^[KQABCDEFGH]{0,2}[kqabcdefgh]{0,2}$/\<close>: the text is at most two
  letters of the first class followed by at most two of the second, and nothing else.
\<close>

definition castlingPattern :: "string \<Rightarrow> bool" where
  "castlingPattern str =
     (\<exists>n \<in> {0, 1, 2}.
        n \<le> length str
        \<and> list_all (\<lambda>c. c \<in> set ''KQABCDEFGH'') (take n str)
        \<and> length (drop n str) \<le> 2
        \<and> list_all (\<lambda>c. c \<in> set ''kqabcdefgh'') (drop n str))"

text \<open>
  The inner loop of \<^verbatim>\<open>parseCastlingFen\<close> over the files to try: it stops at the first
  king or rook of the colour and adds the rook.
\<close>

fun parseCastlingFen_files ::
  "Board \<Rightarrow> Color \<Rightarrow> int \<Rightarrow> int list \<Rightarrow> SquareSet \<Rightarrow> SquareSet" where
  "parseCastlingFen_files board c rank [] unmovedRooks = unmovedRooks"
| "parseCastlingFen_files board c rank (file # files) unmovedRooks =
     (let square = file + 8 * rank in
      case Board_get board square of
        None \<Rightarrow> parseCastlingFen_files board c rank files unmovedRooks
      | Some piece \<Rightarrow>
          if color piece = c \<and> role piece = King then unmovedRooks
          else if color piece = c \<and> role piece = Rook then SquareSet_with unmovedRooks square
          else parseCastlingFen_files board c rank files unmovedRooks)"

fun parseCastlingFen_loop :: "Board \<Rightarrow> string \<Rightarrow> SquareSet \<Rightarrow> SquareSet" where
  "parseCastlingFen_loop board [] unmovedRooks = unmovedRooks"
| "parseCastlingFen_loop board (c # rest) unmovedRooks =
     (let lower = lowerChar c;
          color = (if c = lower then Black else White);
          rank = (if color = White then 0 else 7);
          files = (if lower = CHR ''q'' then [0, 1, 2, 3, 4, 5, 6, 7]
                   else if lower = CHR ''k'' then [7, 6, 5, 4, 3, 2, 1, 0]
                   else [charCode lower - charCode CHR ''a''])
      in parseCastlingFen_loop board rest
           (parseCastlingFen_files board color rank files unmovedRooks))"

definition parseCastlingFen :: "Board \<Rightarrow> string \<Rightarrow> (SquareSet, FenError) Result" where
  "parseCastlingFen board castlingPart =
     (if castlingPart = ''-'' then Ok SquareSet_empty
      else if \<not> castlingPattern castlingPart then Err (FenError ERR_CASTLING)
      else Ok (parseCastlingFen_loop board castlingPart SquareSet_empty))"

definition parseRemainingChecks :: "string \<Rightarrow> (RemainingChecks, FenError) Result" where
  "parseRemainingChecks part =
     (let parts = splitOn part CHR ''+'' in
      if length parts = 3 \<and> parts ! 0 = '''' then
        (let white = parseSmallUint (parts ! 1); black = parseSmallUint (parts ! 2) in
         if \<not> defined white \<or> the white > 3 \<or> \<not> defined black \<or> the black > 3
         then Err (FenError ERR_REMAINING_CHECKS)
         else Ok (RemainingChecks (3 - the white) (3 - the black)))
      else if length parts = 2 then
        (let white = parseSmallUint (parts ! 0); black = parseSmallUint (parts ! 1) in
         if \<not> defined white \<or> the white > 3 \<or> \<not> defined black \<or> the black > 3
         then Err (FenError ERR_REMAINING_CHECKS)
         else Ok (RemainingChecks (the white) (the black)))
      else Err (FenError ERR_REMAINING_CHECKS))"

section \<open>Writing FEN, board and castling\<close>

definition makePiece :: "Piece \<Rightarrow> FenOpts option \<Rightarrow> string" where
  "makePiece piece opts =
     (let r = roleToChar (role piece);
          r = (if color piece = White then toUpperCase r else r)
      in if (case opts of None \<Rightarrow> False | Some v \<Rightarrow> promoted_opt v) \<and> promoted piece
         then r @ ''~'' else r)"

text \<open>
  The body of the inner loop of \<^verbatim>\<open>makeBoardFen\<close> at one rank and file, on the text so
  far and the count of empty squares not yet written.
\<close>

definition makeBoardFen_step ::
  "Board \<Rightarrow> FenOpts option \<Rightarrow> int \<Rightarrow> string \<times> int \<Rightarrow> int \<Rightarrow> string \<times> int" where
  "makeBoardFen_step board opts rank state file =
     (let (fen, empty) = state;
          square = file + rank * 8;
          (fen, empty) =
            (case Board_get board square of
               None \<Rightarrow> (fen, empty + 1)
             | Some piece \<Rightarrow>
                 (let (fen, empty) =
                        (if empty \<noteq> 0 then (fen @ numberToString empty, 0) else (fen, empty))
                  in (fen @ makePiece piece opts, empty)))
      in if file = 7 then
           (let (fen, empty) =
                  (if empty \<noteq> 0 then (fen @ numberToString empty, 0) else (fen, empty))
            in (if rank \<noteq> 0 then fen @ ''/'' else fen, empty))
         else (fen, empty))"

definition makeBoardFen :: "Board \<Rightarrow> FenOpts option \<Rightarrow> string" where
  "makeBoardFen board opts =
     fst (foldl (\<lambda>state rank. foldl (makeBoardFen_step board opts rank) state
                                 [0, 1, 2, 3, 4, 5, 6, 7])
            ('''', 0) [7, 6, 5, 4, 3, 2, 1, 0])"

definition makePocket :: "MaterialSide \<Rightarrow> string" where
  "makePocket material =
     join (map (\<lambda>r. strRepeat (roleToChar r) (MaterialSide_get material r)) ROLES) ''''"

definition makePockets :: "Material \<Rightarrow> string" where
  "makePockets pocket = toUpperCase (makePocket (white pocket)) @ makePocket (black pocket)"

text \<open>
  The text \<^verbatim>\<open>makeCastlingFen\<close> appends for one colour. A king on square 0 is falsy in
  \<^verbatim>\<open>king && rook < king\<close>, as an absent king is.
\<close>

definition makeCastlingFen_color ::
  "Board \<Rightarrow> SquareSet \<Rightarrow> FenOpts option \<Rightarrow> Color \<Rightarrow> string" where
  "makeCastlingFen_color board unmovedRooks opts c =
     (let shredder = (case opts of None \<Rightarrow> False | Some v \<Rightarrow> shredder_opt v);
          king = Board_kingOf board c;
          backrank = SquareSet_fromRank (if c = White then 0 else 7);
          candidates = SquareSet_intersect (Board_pieces board c Rook) backrank
      in concat (map
           (\<lambda>rook.
              if \<not> shredder \<and> Some rook = SquareSet_first candidates
                 \<and> truthyNumber king \<and> rook < the king
              then (if c = White then ''Q'' else ''q'')
              else if \<not> shredder \<and> Some rook = SquareSet_last candidates
                 \<and> truthyNumber king \<and> the king < rook
              then (if c = White then ''K'' else ''k'')
              else strOfIndexed
                     (charAt (if c = White then ''ABCDEFGH'' else ''abcdefgh'') (squareFile rook)))
           (SquareSet_reversed (SquareSet_intersect unmovedRooks candidates))))"

definition makeCastlingFen :: "Board \<Rightarrow> SquareSet \<Rightarrow> FenOpts option \<Rightarrow> string" where
  "makeCastlingFen board unmovedRooks opts =
     (let fen = concat (map (makeCastlingFen_color board unmovedRooks opts) COLORS)
      in if fen = '''' then ''-'' else fen)"

fun makeRemainingChecks :: "RemainingChecks \<Rightarrow> string" where
  "makeRemainingChecks (RemainingChecks w b) = numberToString w @ ''+'' @ numberToString b"

section \<open>Code units beyond 255\<close>

text \<open>
  A JavaScript string is a sequence of 16-bit code units; the strings above are those
  whose code units are below 256. One code unit beyond them is added here, U+212A KELVIN
  SIGN, which \<^verbatim>\<open>toLowerCase\<close> sends to the letter \<^verbatim>\<open>k\<close>; the other code units beyond 255
  are left out. \<^verbatim>\<open>charToPiece\<close> and \<^verbatim>\<open>parseBoardFen\<close> are embedded a second time over these
  code units, step by step as above.
\<close>

datatype CodeUnit = Latin1 char | KelvinSign

definition latin1 :: "string \<Rightarrow> CodeUnit list" where
  "latin1 str = map Latin1 str"

fun lowerUnit :: "CodeUnit \<Rightarrow> CodeUnit" where
  "lowerUnit (Latin1 c) = Latin1 (lowerChar c)"
| "lowerUnit KelvinSign = Latin1 CHR ''k''"

definition toLowerCase_wide :: "CodeUnit list \<Rightarrow> CodeUnit list" where
  "toLowerCase_wide str = map lowerUnit str"

definition charToRole_wide :: "CodeUnit list \<Rightarrow> Role option" where
  "charToRole_wide ch =
     (if ch = latin1 ''P'' \<or> ch = latin1 ''p'' then Some Pawn
      else if ch = latin1 ''N'' \<or> ch = latin1 ''n'' then Some Knight
      else if ch = latin1 ''B'' \<or> ch = latin1 ''b'' then Some Bishop
      else if ch = latin1 ''R'' \<or> ch = latin1 ''r'' then Some Rook
      else if ch = latin1 ''Q'' \<or> ch = latin1 ''q'' then Some Queen
      else if ch = latin1 ''K'' \<or> ch = latin1 ''k'' then Some King
      else None)"

definition charToPiece_wide :: "CodeUnit list \<Rightarrow> Piece option" where
  "charToPiece_wide ch =
     (let lower = toLowerCase_wide ch in
      case charToRole_wide lower of
        None \<Rightarrow> None
      | Some r \<Rightarrow>
          Some \<lparr>role = r, color = (if lower = ch then Black else White), promoted = False\<rparr>)"

text \<open>\<^verbatim>\<open>parseInt(c, 10)\<close> on one code unit; U+212A is no digit.\<close>

fun parseIntUnit :: "CodeUnit \<Rightarrow> int option" where
  "parseIntUnit (Latin1 c) = parseIntChar c"
| "parseIntUnit KelvinSign = None"

fun parseBoardFen_loop_wide ::
  "CodeUnit list \<Rightarrow> Board \<Rightarrow> int \<Rightarrow> int \<Rightarrow> (Board, FenError) Result" where
  "parseBoardFen_loop_wide [] board rank file =
     (if rank \<noteq> 0 \<or> file \<noteq> 8 then Err (FenError ERR_BOARD) else Ok board)"
| "parseBoardFen_loop_wide (c # rest) board rank file =
     (if c = Latin1 CHR ''/'' \<and> file = 8 then parseBoardFen_loop_wide rest board (rank - 1) 0
      else
        (let step = parseIntUnit c in
         if truthyNumber step then parseBoardFen_loop_wide rest board rank (file + the step)
         else if file \<ge> 8 \<or> rank < 0 then Err (FenError ERR_BOARD)
         else
           (let square = file + rank * 8 in
            case charToPiece_wide [c] of
              None \<Rightarrow> Err (FenError ERR_BOARD)
            | Some piece \<Rightarrow>
                (case rest of
                   [] \<Rightarrow> parseBoardFen_loop_wide rest (Board_set board square piece) rank (file + 1)
                 | n # rest' \<Rightarrow>
                     if n = Latin1 CHR ''~''
                     then parseBoardFen_loop_wide rest'
                            (Board_set board square (piece\<lparr>promoted := True\<rparr>)) rank (file + 1)
                     else parseBoardFen_loop_wide rest
                            (Board_set board square piece) rank (file + 1)))))"

definition parseBoardFen_wide :: "CodeUnit list \<Rightarrow> (Board, FenError) Result" where
  "parseBoardFen_wide boardPart = parseBoardFen_loop_wide boardPart Board_empty 7 0"

text \<open>
  A text over these code units read as a text of code units below 256: U+212A as the
  letter \<^verbatim>\<open>K\<close>, every other code unit as itself.
\<close>

fun readUnit :: "CodeUnit \<Rightarrow> char" where
  "readUnit (Latin1 c) = c"
| "readUnit KelvinSign = CHR ''K''"

section \<open>Setups\<close>

record Setup =
  board :: Board
  pockets :: "Material option"
  turn :: Color
  unmovedRooks :: SquareSet
  epSquare :: "Square option"
  remainingChecks :: "RemainingChecks option"
  halfmoves :: int
  fullmoves :: int

text \<open>
  The first block of \<^verbatim>\<open>parseFen\<close> (board and pockets): the two results, or \<open>None\<close>
  where \<^verbatim>\<open>parseFen\<close> returns \<^verbatim>\<open>ERR_FEN\<close> at once.
\<close>

definition parseFen_boardAndPockets ::
  "string \<Rightarrow> ((Board, FenError) Result \<times> (Material option, FenError) Result) option" where
  "parseFen_boardAndPockets boardPart =
     (if endsWith boardPart CHR '']'' then
        (let pocketStart = indexOf boardPart CHR ''['' 0 in
         if pocketStart = - 1 then None
         else Some (parseBoardFen (substr boardPart 0 pocketStart),
                    mapResult
                      (parsePockets (substr boardPart (pocketStart + 1)
                                       (int (length boardPart) - 1 - pocketStart - 1)))
                      Some))
      else
        (let pocketStart = nthIndexOf boardPart CHR ''/'' 7 in
         if pocketStart = - 1 then Some (parseBoardFen boardPart, Ok None)
         else Some (parseBoardFen (substr boardPart 0 pocketStart),
                    mapResult (parsePockets (substrFrom boardPart (pocketStart + 1))) Some)))"

text \<open>
  The callback that \<^verbatim>\<open>parseFen\<close> chains on the board: castling, en passant square,
  clocks and remaining checks, each read off the remaining parts in turn.
\<close>

definition parseFen_fields ::
  "Board \<Rightarrow> (Material option, FenError) Result \<Rightarrow> Color \<Rightarrow> string list
     \<Rightarrow> (Setup, FenError) Result" where
  "parseFen_fields = (\<lambda>board pockets turn parts.
     (let (castlingPart, parts) = shift parts;
          unmovedRooks = (if defined castlingPart then parseCastlingFen board (the castlingPart)
                          else Ok SquareSet_empty);
          (epPart, parts) = shift parts
      in if defined epPart \<and> epPart \<noteq> Some ''-'' \<and> \<not> defined (parseSquare (the epPart))
         then Err (FenError ERR_EP_SQUARE)
         else
      (let epSquare = (if defined epPart \<and> epPart \<noteq> Some ''-''
                       then parseSquare (the epPart) else None);
           (halfmovePart, parts) = shift parts;
           early = (defined halfmovePart \<and> includes_char (the halfmovePart) CHR ''+'');
           earlyRemainingChecks =
             (if early then Some (parseRemainingChecks (the halfmovePart)) else None);
           (halfmovePart, parts) = (if early then shift parts else (halfmovePart, parts));
           halfmoves = (if defined halfmovePart then parseSmallUint (the halfmovePart)
                        else Some 0)
       in if \<not> defined halfmoves then Err (FenError ERR_HALFMOVES)
          else
      (let (fullmovesPart, parts) = shift parts;
           fullmoves = (if defined fullmovesPart then parseSmallUint (the fullmovesPart)
                        else Some 1)
       in if \<not> defined fullmoves then Err (FenError ERR_FULLMOVES)
          else
      (let (remainingChecksPart, parts) = shift parts
       in if defined remainingChecksPart \<and> defined earlyRemainingChecks
          then Err (FenError ERR_REMAINING_CHECKS)
          else
      (let remainingChecks =
             (if defined remainingChecksPart
              then mapResult (parseRemainingChecks (the remainingChecksPart)) Some
              else if defined earlyRemainingChecks
              then mapResult (the earlyRemainingChecks) Some
              else Ok None)
       in if parts \<noteq> [] then Err (FenError ERR_FEN)
          else
            chain pockets (\<lambda>pockets.
            chain unmovedRooks (\<lambda>unmovedRooks.
            mapResult remainingChecks (\<lambda>remainingChecks.
              \<lparr>board = board, pockets = pockets, turn = turn, unmovedRooks = unmovedRooks,
               epSquare = epSquare, remainingChecks = remainingChecks,
               halfmoves = the halfmoves, fullmoves = max 1 (the fullmoves)\<rparr>)))))))))"

text \<open>
  \<^verbatim>\<open>parseFen\<close>. The board part is \<^verbatim>\<open>parts.shift()!\<close>: were the array empty, the call
  of \<^verbatim>\<open>endsWith\<close> on it would throw.
\<close>

definition parseFen :: "string \<Rightarrow> ((Setup, FenError) Result) Completion" where
  "parseFen fen =
     (let parts = splitOn fen CHR '' '';
          (boardPart, parts) = shift parts
      in if \<not> defined boardPart then Throws
         else Returns
           (case parseFen_boardAndPockets (the boardPart) of
              None \<Rightarrow> Err (FenError ERR_FEN)
            | Some (b, p) \<Rightarrow>
                (let (turnPart, parts) = shift parts in
                 if \<not> defined turnPart \<or> turnPart = Some ''w''
                 then chain b (\<lambda>board. parseFen_fields board p White parts)
                 else if turnPart = Some ''b''
                 then chain b (\<lambda>board. parseFen_fields board p Black parts)
                 else Err (FenError ERR_TURN))))"

section \<open>Writing FEN, setups\<close>

definition makeFen :: "Setup \<Rightarrow> FenOpts option \<Rightarrow> string" where
  "makeFen setup opts =
     join
       ([makeBoardFen (board setup) opts
           @ (case pockets setup of Some p \<Rightarrow> ''['' @ makePockets p @ '']'' | None \<Rightarrow> ''''),
         strOfIndexed (charAt (colorName (turn setup)) 0),
         makeCastlingFen (board setup) (unmovedRooks setup) opts,
         (if defined (epSquare setup) then makeSquare (the (epSquare setup)) else ''-'')]
        @ (case remainingChecks setup of Some rc \<Rightarrow> [makeRemainingChecks rc] | None \<Rightarrow> [])
        @ (if (case opts of None \<Rightarrow> False | Some v \<Rightarrow> epd_opt v) then []
           else [numberToString (halfmoves setup), numberToString (fullmoves setup)]))
       '' ''"

section \<open>Notions used in the statements\<close>

text \<open>
  The home rank of a colour (rank 1 for white, rank 8 for black, counted from 0), and a
  square that holds a rook on the home rank of the rook's colour.
\<close>

definition homeRank :: "Color \<Rightarrow> int" where
  "homeRank c = (if c = White then 0 else 7)"

definition homeRook :: "Board \<Rightarrow> Square \<Rightarrow> bool" where
  "homeRook b sq =
     (case b sq of
        None \<Rightarrow> False
      | Some p \<Rightarrow> role p = Rook \<and> squareRank sq = homeRank (color p))"

text \<open>The files \<^verbatim>\<open>parseCastlingFen\<close> tries for a lowered letter.\<close>

definition castlingFiles :: "char \<Rightarrow> int list" where
  "castlingFiles lower =
     (if lower = CHR ''q'' then [0, 1, 2, 3, 4, 5, 6, 7]
      else if lower = CHR ''k'' then [7, 6, 5, 4, 3, 2, 1, 0]
      else [charCode lower - charCode CHR ''a''])"

definition castlingChar :: "char \<Rightarrow> bool" where
  "castlingChar c = (c \<in> set ''KQABCDEFGH'' \<or> c \<in> set ''kqabcdefgh'')"

text \<open>A board for examples: the kings on e1 and e8, white rooks on a1 and h1, a black rook on a8.\<close>

definition exampleBoard :: Board where
  "exampleBoard =
     Board_empty(0 \<mapsto> \<lparr>role = Rook, color = White, promoted = False\<rparr>,
                 4 \<mapsto> \<lparr>role = King, color = White, promoted = False\<rparr>,
                 7 \<mapsto> \<lparr>role = Rook, color = White, promoted = False\<rparr>,
                 56 \<mapsto> \<lparr>role = Rook, color = Black, promoted = False\<rparr>,
                 60 \<mapsto> \<lparr>role = King, color = Black, promoted = False\<rparr>)"

text \<open>
  Whether the fifth part of a split FEN is a remaining-checks token, and the index at
  which \<^verbatim>\<open>parseFen\<close> then reads the fullmove counter.
\<close>

definition earlyChecks :: "string list \<Rightarrow> bool" where
  "earlyChecks parts = (4 < length parts \<and> CHR ''+'' \<in> set (parts ! 4))"


text \<open>
  \<^verbatim>\<open>parseFen\<close> after the split: the same steps, as a function of the parts.
\<close>

definition parseFen_parts :: "string list \<Rightarrow> ((Setup, FenError) Result) Completion" where
  "parseFen_parts parts0 =
     (let (boardPart, parts) = shift parts0
      in if \<not> defined boardPart then Throws
         else Returns
           (case parseFen_boardAndPockets (the boardPart) of
              None \<Rightarrow> Err (FenError ERR_FEN)
            | Some (b, p) \<Rightarrow>
                (let (turnPart, parts) = shift parts in
                 if \<not> defined turnPart \<or> turnPart = Some ''w''
                 then chain b (\<lambda>board. parseFen_fields board p White parts)
                 else if turnPart = Some ''b''
                 then chain b (\<lambda>board. parseFen_fields board p Black parts)
                 else Err (FenError ERR_TURN))))"

text \<open>
  Every field that a split FEN leaves out has its default in a setup: white to move, no
  castling rights, no en passant square, no remaining checks, a halfmove clock of 0 and a
  fullmove number of 1. With a remaining-checks token in fifth place the clocks sit one
  place later.
\<close>

definition omittedDefaults :: "string list \<Rightarrow> Setup \<Rightarrow> bool" where
  "omittedDefaults parts s =
     ((length parts < 2 \<longrightarrow> turn s = White)
      \<and> (length parts < 3 \<longrightarrow> unmovedRooks s = {})
      \<and> (length parts < 4 \<longrightarrow> epSquare s = None)
      \<and> (length parts < (if earlyChecks parts then 6 else 5) \<longrightarrow> halfmoves s = 0)
      \<and> (length parts < (if earlyChecks parts then 7 else 6) \<longrightarrow> fullmoves s = 1)
      \<and> (length parts < (if earlyChecks parts then 5 else 7) \<longrightarrow> remainingChecks s = None))"

text \<open>
  The fields that a shorter list of parts still carries are kept from one setup to
  another; \<open>resetField\<close> gives the field read from the part at one index its default.
\<close>

definition keptFields :: "string list \<Rightarrow> Setup \<Rightarrow> Setup \<Rightarrow> bool" where
  "keptFields parts s s' =
     (board s' = board s \<and> pockets s' = pockets s
      \<and> (2 \<le> length parts \<longrightarrow> turn s' = turn s)
      \<and> (3 \<le> length parts \<longrightarrow> unmovedRooks s' = unmovedRooks s)
      \<and> (4 \<le> length parts \<longrightarrow> epSquare s' = epSquare s)
      \<and> ((if earlyChecks parts then 6 else 5) \<le> length parts \<longrightarrow> halfmoves s' = halfmoves s)
      \<and> ((if earlyChecks parts then 7 else 6) \<le> length parts \<longrightarrow> fullmoves s' = fullmoves s)
      \<and> ((if earlyChecks parts then 5 else 7) \<le> length parts
            \<longrightarrow> remainingChecks s' = remainingChecks s))"

definition resetField :: "nat \<Rightarrow> bool \<Rightarrow> Setup \<Rightarrow> Setup" where
  "resetField k early s =
     (if k = 1 then s\<lparr>turn := White\<rparr>
      else if k = 2 then s\<lparr>unmovedRooks := {}\<rparr>
      else if k = 3 then s\<lparr>epSquare := None\<rparr>
      else if k = 4 then (if early then s\<lparr>remainingChecks := None\<rparr> else s\<lparr>halfmoves := 0\<rparr>)
      else if k = 5 then (if early then s\<lparr>halfmoves := 0\<rparr> else s\<lparr>fullmoves := 1\<rparr>)
      else if k = 6 then (if early then s\<lparr>fullmoves := 1\<rparr> else s\<lparr>remainingChecks := None\<rparr>)
      else s)"

definition keptAt :: "nat \<Rightarrow> bool \<Rightarrow> Setup \<Rightarrow> Setup \<Rightarrow> bool" where
  "keptAt m e s s' =
     (board s' = board s \<and> pockets s' = pockets s
      \<and> (2 \<le> m \<longrightarrow> turn s' = turn s)
      \<and> (3 \<le> m \<longrightarrow> unmovedRooks s' = unmovedRooks s)
      \<and> (4 \<le> m \<longrightarrow> epSquare s' = epSquare s)
      \<and> ((if e then 6 else 5) \<le> m \<longrightarrow> halfmoves s' = halfmoves s)
      \<and> ((if e then 7 else 6) \<le> m \<longrightarrow> fullmoves s' = fullmoves s)
      \<and> ((if e then 5 else 7) \<le> m \<longrightarrow> remainingChecks s' = remainingChecks s))"

section \<open>What a board part encodes\<close>

text \<open>
  The encoding of a board as the claims describe it, written from their words and not
  from the code. The piece characters are the twelve letters of FEN: \<^verbatim>\<open>P N B R Q K\<close> for
  the white pawn, knight, bishop, rook, queen and king, \<^verbatim>\<open>p n b r q k\<close> for the black
  ones.
\<close>

definition pieceOfLetter :: "char \<Rightarrow> Piece option" where
  "pieceOfLetter c =
     (if c = CHR ''P'' then Some \<lparr>role = Pawn, color = White, promoted = False\<rparr>
      else if c = CHR ''N'' then Some \<lparr>role = Knight, color = White, promoted = False\<rparr>
      else if c = CHR ''B'' then Some \<lparr>role = Bishop, color = White, promoted = False\<rparr>
      else if c = CHR ''R'' then Some \<lparr>role = Rook, color = White, promoted = False\<rparr>
      else if c = CHR ''Q'' then Some \<lparr>role = Queen, color = White, promoted = False\<rparr>
      else if c = CHR ''K'' then Some \<lparr>role = King, color = White, promoted = False\<rparr>
      else if c = CHR ''p'' then Some \<lparr>role = Pawn, color = Black, promoted = False\<rparr>
      else if c = CHR ''n'' then Some \<lparr>role = Knight, color = Black, promoted = False\<rparr>
      else if c = CHR ''b'' then Some \<lparr>role = Bishop, color = Black, promoted = False\<rparr>
      else if c = CHR ''r'' then Some \<lparr>role = Rook, color = Black, promoted = False\<rparr>
      else if c = CHR ''q'' then Some \<lparr>role = Queen, color = Black, promoted = False\<rparr>
      else if c = CHR ''k'' then Some \<lparr>role = King, color = Black, promoted = False\<rparr>
      else None)"

text \<open>
  A rank is a run of tokens: a digit from 1 to 9 stands for that many empty squares, a
  piece letter for a piece, a piece letter followed by \<^verbatim>\<open>~\<close> for a promoted piece. (Nine
  empty squares never fit a rank of eight; the digit 0 is no token.)
\<close>

fun decodeRank :: "string \<Rightarrow> Piece option list option" where
  "decodeRank [] = Some []"
| "decodeRank (c # cs) =
     (if c \<in> set ''123456789''
      then map_option (\<lambda>cells. replicate (nat (digitValue c)) None @ cells) (decodeRank cs)
      else
        (case pieceOfLetter c of
           None \<Rightarrow> None
         | Some piece \<Rightarrow>
             (case cs of
                [] \<Rightarrow> Some [Some piece]
              | n # cs' \<Rightarrow>
                  if n = CHR ''~''
                  then map_option (\<lambda>cells. Some (piece\<lparr>promoted := True\<rparr>) # cells) (decodeRank cs')
                  else map_option (\<lambda>cells. Some piece # cells) (decodeRank cs))))"

text \<open>
  A board part is eight ranks of eight squares each, separated by \<^verbatim>\<open>/\<close>, the eighth
  rank first: square \<open>file + 8 * rank\<close> holds the cell \<open>file\<close> of the rank written in
  place \<open>7 - rank\<close>.
\<close>

definition boardOfRanks :: "Piece option list list \<Rightarrow> Board" where
  "boardOfRanks ranks =
     (\<lambda>sq. if 0 \<le> sq \<and> sq \<le> 63 then ranks ! nat (7 - sq div 8) ! nat (sq mod 8) else None)"

definition decodeBoardFen :: "string \<Rightarrow> Board option" where
  "decodeBoardFen str =
     (case those (map decodeRank (splitOn str CHR ''/'')) of
        None \<Rightarrow> None
      | Some ranks \<Rightarrow>
          if length ranks = 8 \<and> list_all (\<lambda>cells. length cells = 8) ranks
          then Some (boardOfRanks ranks) else None)"

text \<open>
  For the proofs: the board after placing the cells of a rank from a file on, and after
  placing whole ranks downwards; what the loop of \<^verbatim>\<open>parseBoardFen\<close> returns from a state
  in the middle of a rank, said with the decoding above; the first rank of a text and
  the ranks after it; the code units that \<^verbatim>\<open>toLowerCase\<close> changes.
\<close>

fun place :: "Board \<Rightarrow> int \<Rightarrow> int \<Rightarrow> Piece option list \<Rightarrow> Board" where
  "place B r f [] = B"
| "place B r f (None # cells) = place B r (f + 1) cells"
| "place B r f (Some p # cells) = place (Board_set B (f + r * 8) p) r (f + 1) cells"

fun placeRanks :: "Board \<Rightarrow> int \<Rightarrow> Piece option list list \<Rightarrow> Board" where
  "placeRanks B r [] = B"
| "placeRanks B r (cells # ranks) = placeRanks (place B r 0 cells) (r - 1) ranks"

definition loopSpec :: "string \<Rightarrow> Board \<Rightarrow> int \<Rightarrow> int \<Rightarrow> (Board, FenError) Result" where
  "loopSpec s B r f =
     (case those (map decodeRank (splitOn s CHR ''/'')) of
        None \<Rightarrow> Err (FenError ERR_BOARD)
      | Some [] \<Rightarrow> Err (FenError ERR_BOARD)
      | Some (cells # ranks) \<Rightarrow>
          if f + int (length cells) = 8 \<and> list_all (\<lambda>cells. length cells = 8) ranks
             \<and> int (length ranks) = r
          then Ok (placeRanks (place B r f cells) (r - 1) ranks)
          else Err (FenError ERR_BOARD))"

definition rankSpec ::
  "Piece option list option \<Rightarrow> Piece option list list option \<Rightarrow> Board \<Rightarrow> int \<Rightarrow> int
     \<Rightarrow> (Board, FenError) Result" where
  "rankSpec first rest B r f =
     (case first of
        None \<Rightarrow> Err (FenError ERR_BOARD)
      | Some cells \<Rightarrow>
          (case rest of
             None \<Rightarrow> Err (FenError ERR_BOARD)
           | Some ranks \<Rightarrow>
               if f + int (length cells) = 8 \<and> list_all (\<lambda>cells. length cells = 8) ranks
                  \<and> int (length ranks) = r
               then Ok (placeRanks (place B r f cells) (r - 1) ranks)
               else Err (FenError ERR_BOARD)))"

definition hdPart :: "string \<Rightarrow> string" where
  "hdPart s = hd (splitOn s CHR ''/'')"

definition tlParts :: "string \<Rightarrow> string list" where
  "tlParts s = tl (splitOn s CHR ''/'')"

definition isUpperCode :: "int \<Rightarrow> bool" where
  "isUpperCode n = ((65 \<le> n \<and> n \<le> 90) \<or> (192 \<le> n \<and> n \<le> 222 \<and> n \<noteq> 215))"

section \<open>Squares\<close>

lemma sint_word_of_int_small: "0 \<le> s \<Longrightarrow> s \<le> 63 \<Longrightarrow> sint (word_of_int s :: 32 word) = s"
  by (simp add: sint_sbintrunc' signed_take_bit_int_eq_self)

lemma squareRank_in_range: "0 \<le> s \<Longrightarrow> s \<le> 63 \<Longrightarrow> squareRank s = s div 8"
  by (simp add: squareRank_def sint_signed_drop_bit_eq sint_word_of_int_small drop_bit_eq_div)

lemma int_and_7: "(s::int) AND 7 = s mod 8"
proof -
  have "s AND mask 3 = take_bit 3 s" by (simp only: take_bit_eq_mask)
  then show ?thesis by (simp add: take_bit_eq_mod mask_eq_exp_minus_1)
qed

lemma squareFile_mod: "squareFile s = s mod 8"
proof -
  have "(word_of_int s :: 32 word) AND 7 = word_of_int (s AND 7)"
    by (simp add: of_int_and_eq)
  also have "\<dots> = word_of_int (s mod 8)" by (simp only: int_and_7)
  finally have e: "(word_of_int s :: 32 word) AND 7 = word_of_int (s mod 8)" .
  have "0 \<le> s mod 8" "s mod 8 \<le> 63" by auto
  then show ?thesis unfolding squareFile_def e by (rule sint_word_of_int_small)
qed

lemma small_int_cases:
  "0 \<le> (i::int) \<Longrightarrow> i < 8 \<Longrightarrow> i = 0 \<or> i = 1 \<or> i = 2 \<or> i = 3 \<or> i = 4 \<or> i = 5 \<or> i = 6 \<or> i = 7"
  by arith

lemma fileChar:
  assumes "0 \<le> i" "i < 8"
  shows "\<exists>c. charAt ''abcdefgh'' i = Some c \<and> charCode c = 97 + i"
  using small_int_cases [OF assms] by (auto simp: charAt_def charCode_def)

lemma rankChar:
  assumes "0 \<le> i" "i < 8"
  shows "\<exists>c. charAt ''12345678'' i = Some c \<and> charCode c = 49 + i"
  using small_int_cases [OF assms] by (auto simp: charAt_def charCode_def)

lemma makeSquare_in_range:
  assumes "0 \<le> s" "s \<le> 63"
  shows "\<exists>f r. makeSquare s = [f, r] \<and> charCode f = 97 + s mod 8 \<and> charCode r = 49 + s div 8"
proof -
  have "0 \<le> s mod 8" "s mod 8 < 8" "0 \<le> s div 8" "s div 8 < 8" using assms by auto
  then obtain f r where "charAt ''abcdefgh'' (s mod 8) = Some f" "charCode f = 97 + s mod 8"
    "charAt ''12345678'' (s div 8) = Some r" "charCode r = 49 + s div 8"
    using fileChar rankChar by blast
  then show ?thesis
    using assms by (simp add: makeSquare_def squareFile_mod squareRank_in_range strOfIndexed_def)
qed

lemma parseSquare_codes:
  assumes "charCode f = 97 + a" "charCode r = 49 + b" "0 \<le> a" "a < 8" "0 \<le> b" "b < 8"
  shows "parseSquare [f, r] = Some (a + 8 * b)"
  using assms by (simp add: parseSquare_def isSquareName_def charCode_def)

lemma parseSquare_makeSquare:
  assumes "0 \<le> s" "s \<le> 63"
  shows "parseSquare (makeSquare s) = Some s"
proof -
  obtain f r where m: "makeSquare s = [f, r]" "charCode f = 97 + s mod 8" "charCode r = 49 + s div 8"
    using makeSquare_in_range [OF assms] by blast
  have "parseSquare [f, r] = Some (s mod 8 + 8 * (s div 8))"
    using assms by (intro parseSquare_codes m) auto
  then show ?thesis by (simp add: m)
qed

text \<open>
  C5. On every square index from 0 to 63, \<^verbatim>\<open>squareFile\<close> is the index modulo 8,
  \<^verbatim>\<open>squareRank\<close> is the index divided by 8 (rounding down), and parsing the name that
  \<^verbatim>\<open>makeSquare\<close> writes gives the index back.
\<close>

theorem square_coordinates:
  assumes "0 \<le> s" "s \<le> 63"
  shows "squareFile s = s mod 8 \<and> squareRank s = s div 8 \<and> parseSquare (makeSquare s) = Some s"
  using assms by (simp add: squareFile_mod squareRank_in_range parseSquare_makeSquare)

theorem square_coordinates_witness:
  "(0::int) \<le> 37 \<and> (37::int) \<le> 63 \<and> squareFile 37 = 37 mod 8 \<and> squareRank 37 = 37 div 8
   \<and> parseSquare (makeSquare 37) = Some 37"
  using square_coordinates [of 37] by simp

section \<open>Move notation\<close>

lemma charToRole_roleToChar: "charToRole (roleToChar r) = Some r"
  by (cases r) (simp_all add: charToRole_def)

lemma charToRole_upper_roleToChar: "charToRole (toUpperCase (roleToChar r)) = Some r"
  by (cases r) (simp_all add: charToRole_def toUpperCase_def upperChar_def charCode_def char_of_eq_iff)

lemma roleToChar_single: "\<exists>c. roleToChar r = [c]"
  by (cases r) simp_all

lemma upper_roleToChar_single: "\<exists>c. toUpperCase (roleToChar r) = [c]"
  by (cases r) (simp_all add: toUpperCase_def)

lemma parseUci_drop:
  assumes "0 \<le> t" "t \<le> 63"
  shows "parseUci (makeUci (Drop r t)) = Some (Drop r t)"
proof -
  obtain c where c: "toUpperCase (roleToChar r) = [c]" using upper_roleToChar_single by blast
  obtain f k where m: "makeSquare t = [f, k]"
    using makeSquare_in_range [OF assms] by blast
  have r: "charToRole [c] = Some r" using charToRole_upper_roleToChar [of r] by (simp add: c)
  have p: "parseSquare [f, k] = Some t" using parseSquare_makeSquare [OF assms] by (simp add: m)
  show ?thesis
    by (simp add: c m parseUci_def charAt_def strOfIndexed_def r p)
qed

lemma parseUci_normal:
  assumes "0 \<le> a" "a \<le> 63" "0 \<le> t" "t \<le> 63"
  shows "parseUci (makeUci (Normal a t p)) = Some (Normal a t p)"
proof -
  obtain f1 r1 where m1: "makeSquare a = [f1, r1]" "charCode r1 = 49 + a div 8"
    using makeSquare_in_range [OF assms(1,2)] by blast
  obtain f2 r2 where m2: "makeSquare t = [f2, r2]"
    using makeSquare_in_range [OF assms(3,4)] by blast
  have ne: "r1 \<noteq> CHR ''@''"
  proof
    assume "r1 = CHR ''@''"
    then have "charCode r1 = 64" by (simp add: charCode_def)
    then show False using m1(2) assms(1,2) by simp
  qed
  have p1: "parseSquare [f1, r1] = Some a" using parseSquare_makeSquare [OF assms(1,2)] by (simp add: m1)
  have p2: "parseSquare [f2, r2] = Some t" using parseSquare_makeSquare [OF assms(3,4)] by (simp add: m2)
  show ?thesis
  proof (cases p)
    case None
    then show ?thesis
      by (simp add: m1 m2 parseUci_def charAt_def ne slice_def p1 p2)
  next
    case (Some q)
    obtain c where c: "roleToChar q = [c]" using roleToChar_single by blast
    have r: "charToRole [c] = Some q" using charToRole_roleToChar [of q] by (simp add: c)
    show ?thesis
      by (simp add: Some c m1 m2 parseUci_def charAt_def ne slice_def p1 p2 strOfIndexed_def r)
  qed
qed

text \<open>
  C2. \<^verbatim>\<open>parseUci\<close> and \<^verbatim>\<open>makeUci\<close> are functions of the text and of the move alone
  (no board is among their arguments), and for every move whose squares lie in 0..63
  (a normal move with or without a promotion role, or a drop) parsing the text that
  \<^verbatim>\<open>makeUci\<close> writes gives the move back.
\<close>

theorem parseUci_makeUci:
  assumes "validMove m"
  shows "parseUci (makeUci m) = Some m"
  using assms by (cases m) (simp_all only: validMove.simps parseUci_normal parseUci_drop)

theorem parseUci_makeUci_witness:
  "validMove (Normal 12 28 None) \<and> validMove (Normal 52 60 (Some Queen)) \<and> validMove (Drop Knight 21)
   \<and> parseUci (makeUci (Normal 12 28 None)) = Some (Normal 12 28 None)
   \<and> parseUci (makeUci (Normal 52 60 (Some Queen))) = Some (Normal 52 60 (Some Queen))
   \<and> parseUci (makeUci (Drop Knight 21)) = Some (Drop Knight 21)"
  using parseUci_makeUci [of "Normal 12 28 None"] parseUci_makeUci [of "Normal 52 60 (Some Queen)"]
    parseUci_makeUci [of "Drop Knight 21"]
  by simp

section \<open>The two utility modules agree\<close>

text \<open>
  C10. On every input the result-returning \<^verbatim>\<open>charToRole\<close> is \<^verbatim>\<open>ok(r)\<close> exactly
  when the other \<^verbatim>\<open>charToRole\<close> returns the role \<^verbatim>\<open>r\<close>, and \<^verbatim>\<open>err()\<close> exactly
  when the other returns \<^verbatim>\<open>undefined\<close>; the two \<^verbatim>\<open>opposite\<close> functions return the
  same colour on every colour.
\<close>

theorem charToRole_opposite_agree:
  "(charToRole_fp c = Ok r) = (charToRole c = Some r)
   \<and> (charToRole_fp c = Err ()) = (charToRole c = None)
   \<and> opposite_fp col = opposite col"
  by (simp add: charToRole_fp_def charToRole_def opposite_fp_def opposite_def)

section \<open>Code units\<close>

lemma char_eq_char_of_iff: "(c = char_of n) = (of_char c = take_bit 8 n)"
  by (metis char_of_eq_iff)

lemma charCode_char_of: "charCode (char_of (n::int)) = n mod 256"
  by (simp add: charCode_def of_nat_of_char)

lemma charCode_Char:
  "charCode (Char b0 b1 b2 b3 b4 b5 b6 b7) = horner_sum of_bool 2 [b0, b1, b2, b3, b4, b5, b6, b7]"
  by (simp add: charCode_def)

lemmas char_eval = charCode_Char charCode_char_of char_of_eq_iff char_eq_char_of_iff

lemma charCode_bounds: "0 \<le> charCode c" "charCode c < 256"
proof -
  show "0 \<le> charCode c" by (simp add: charCode_def)
  have "(of_char c :: nat) < 256" by simp
  then show "charCode c < 256" unfolding charCode_def by linarith
qed

lemma charCode_inj: "(charCode a = charCode b) = (a = b)"
  by (simp add: charCode_def)

section \<open>Castling rights name rooks on their home rank\<close>

lemma squareRank_file_rank:
  assumes "0 \<le> f" "f < 8" "r = 0 \<or> r = 7"
  shows "squareRank (f + 8 * r) = r"
proof -
  have "0 \<le> f + 8 * r" "f + 8 * r \<le> 63" using assms by auto
  then have "squareRank (f + 8 * r) = (f + 8 * r) div 8" by (rule squareRank_in_range)
  then show ?thesis using assms by auto
qed

lemma squareRank_homeRank:
  assumes "0 \<le> f" "f < 8"
  shows "squareRank (f + 8 * homeRank c) = homeRank c"
  using assms by (intro squareRank_file_rank) (simp_all add: homeRank_def)

lemma parseCastlingFen_files_homeRook:
  assumes "\<forall>f \<in> set files. 0 \<le> f \<and> f < 8" "\<forall>sq \<in> U. homeRook b sq"
  shows "\<forall>sq \<in> parseCastlingFen_files b c (homeRank c) files U. homeRook b sq"
  using assms(1)
proof (induction files)
  case Nil
  show ?case using assms(2) by simp
next
  case (Cons f files)
  have IH: "\<forall>sq \<in> parseCastlingFen_files b c (homeRank c) files U. homeRook b sq"
    using Cons.prems by (intro Cons.IH) simp
  have f: "0 \<le> f" "f < 8" using Cons.prems by simp_all
  show ?case
  proof (cases "b (f + 8 * homeRank c)")
    case None
    then show ?thesis using IH by (simp add: Board_get_def)
  next
    case (Some p)
    have new: "color p = c \<Longrightarrow> role p = Rook \<Longrightarrow> homeRook b (f + 8 * homeRank c)"
      using Some squareRank_homeRank [OF f, of c] by (simp add: homeRook_def)
    show ?thesis
      using Some IH assms(2) new
      by (simp add: Board_get_def SquareSet_with_def)
  qed
qed

lemma upper_castling_char:
  assumes "c \<in> set ''KQABCDEFGH''"
  shows "lowerChar c \<noteq> c \<and> (\<forall>f \<in> set (castlingFiles (lowerChar c)). 0 \<le> f \<and> f < 8)"
  using assms
  apply (simp only: set_simps insert_iff empty_iff)
  apply (elim disjE)
  apply (simp_all add: lowerChar_def char_eval castlingFiles_def)
  done

lemma lower_castling_char:
  assumes "c \<in> set ''kqabcdefgh''"
  shows "lowerChar c = c \<and> (\<forall>f \<in> set (castlingFiles (lowerChar c)). 0 \<le> f \<and> f < 8)"
  using assms
  apply (simp only: set_simps insert_iff empty_iff)
  apply (elim disjE)
  apply (simp_all add: lowerChar_def char_eval castlingFiles_def)
  done

lemma castlingChar_files:
  assumes "castlingChar c"
  shows "\<forall>f \<in> set (castlingFiles (lowerChar c)). 0 \<le> f \<and> f < 8"
  using assms upper_castling_char lower_castling_char unfolding castlingChar_def by blast

lemma castlingPattern_chars:
  assumes "castlingPattern str"
  shows "list_all castlingChar str"
proof -
  from assms obtain n where n: "list_all (\<lambda>c. c \<in> set ''KQABCDEFGH'') (take n str)"
    "list_all (\<lambda>c. c \<in> set ''kqabcdefgh'') (drop n str)"
    unfolding castlingPattern_def by blast
  have "list_all castlingChar (take n str)"
    using n(1) unfolding list_all_iff castlingChar_def by blast
  moreover have "list_all castlingChar (drop n str)"
    using n(2) unfolding list_all_iff castlingChar_def by blast
  ultimately have "list_all castlingChar (take n str @ drop n str)"
    by (simp only: list_all_append)
  then show ?thesis by simp
qed

lemma parseCastlingFen_loop_Cons:
  "parseCastlingFen_loop b (c # str) U =
     parseCastlingFen_loop b str
       (parseCastlingFen_files b (if c = lowerChar c then Black else White)
          (homeRank (if c = lowerChar c then Black else White)) (castlingFiles (lowerChar c)) U)"
  by (simp add: Let_def castlingFiles_def homeRank_def)

lemma parseCastlingFen_loop_homeRook:
  assumes "list_all castlingChar str" "\<forall>sq \<in> U. homeRook b sq"
  shows "\<forall>sq \<in> parseCastlingFen_loop b str U. homeRook b sq"
  using assms
proof (induction str arbitrary: U)
  case Nil
  then show ?case by simp
next
  case (Cons c str)
  have c: "castlingChar c" and rest: "list_all castlingChar str" using Cons.prems(1) by simp_all
  have "\<forall>sq \<in> parseCastlingFen_files b (if c = lowerChar c then Black else White)
          (homeRank (if c = lowerChar c then Black else White)) (castlingFiles (lowerChar c)) U.
          homeRook b sq"
    by (rule parseCastlingFen_files_homeRook [OF castlingChar_files [OF c] Cons.prems(2)])
  from Cons.IH [OF rest this] show ?case by (simp only: parseCastlingFen_loop_Cons)
qed

lemma parseCastlingFen_homeRook:
  assumes "parseCastlingFen b str = Ok S"
  shows "\<forall>sq \<in> S. homeRook b sq"
proof (cases "str = ''-''")
  case True
  then show ?thesis using assms by (simp add: parseCastlingFen_def SquareSet_empty_def)
next
  case False
  then have p: "castlingPattern str" and S: "S = parseCastlingFen_loop b str SquareSet_empty"
    using assms by (auto simp: parseCastlingFen_def split: if_splits)
  show ?thesis unfolding S
    by (rule parseCastlingFen_loop_homeRook [OF castlingPattern_chars [OF p]])
       (simp add: SquareSet_empty_def)
qed

text \<open>
  C4. Whenever \<^verbatim>\<open>parseCastlingFen\<close> returns \<^verbatim>\<open>ok\<close> with a square set, every member of
  the set holds, on the given board, a rook that stands on the home rank of its own
  colour: rank 1 (index 0) for a white rook, rank 8 (index 7) for a black one.
\<close>

theorem parseCastlingFen_home_rooks:
  assumes "parseCastlingFen b str = Ok S" "sq \<in> S"
  shows "\<exists>p. b sq = Some p \<and> role p = Rook
           \<and> squareRank sq = (if color p = White then 0 else 7)"
proof -
  have "homeRook b sq" using parseCastlingFen_homeRook [OF assms(1)] assms(2) by blast
  then show ?thesis by (auto simp: homeRook_def homeRank_def split: option.splits)
qed

lemma parseCastlingFen_example: "parseCastlingFen exampleBoard ''Kq'' = Ok {7, 56}"
  by (simp add: parseCastlingFen_def castlingPattern_def exampleBoard_def Board_empty_def
      Board_get_def SquareSet_with_def SquareSet_empty_def lowerChar_def char_eval Let_def
      insert_commute)

theorem parseCastlingFen_home_rooks_witness:
  "parseCastlingFen exampleBoard ''Kq'' = Ok {7, 56} \<and> (56::int) \<in> {7, 56}
   \<and> (\<exists>p. exampleBoard 56 = Some p \<and> role p = Rook
          \<and> squareRank 56 = (if color p = White then 0 else 7))"
  using parseCastlingFen_home_rooks [OF parseCastlingFen_example, of 56] parseCastlingFen_example
  by simp

section \<open>Every parser returns a result\<close>

lemma splitOn_not_Nil: "splitOn s c \<noteq> []"
  by (induction s) (auto split: list.splits)

lemma chain_Ok_iff: "(chain r f = Ok v) = (\<exists>x. r = Ok x \<and> f x = Ok v)"
  by (cases r) simp_all

lemma mapResult_Ok_iff: "(mapResult r f = Ok v) = (\<exists>x. r = Ok x \<and> v = f x)"
  by (cases r) auto

lemmas fen_eval =
  parseFen_def parseFen_boardAndPockets_def parseFen_fields_def shift_def defined_def
  endsWith_def nthIndexOf_def indexOf_def substr_def substrFrom_def includes_char_def
  parseBoardFen_def parseIntChar_def truthyNumber_def isDigit_def digitValue_def
  parseSmallUint_def parseIntDigits_def parseCastlingFen_def castlingPattern_def
  parseRemainingChecks_def parsePockets_def charToPiece_def charToRole_def toLowerCase_def
  lowerChar_def SquareSet_empty_def SquareSet_with_def Board_get_def Board_set_def
  parseSquare_def isSquareName_def Let_def char_eval eval_nat_numeral

lemma parseFen_Returns: "\<exists>r. parseFen fen = Returns r"
proof -
  obtain x xs where "splitOn fen CHR '' '' = x # xs"
    using splitOn_not_Nil [of fen "CHR '' ''"] by (cases "splitOn fen CHR '' ''") auto
  then show ?thesis by (simp add: parseFen_def shift_def defined_def)
qed

lemma parseFen_Ok_or_Err:
  "(\<exists>s. parseFen fen = Returns (Ok s)) \<or> (\<exists>k. parseFen fen = Returns (Err (FenError k)))"
proof -
  obtain r where r: "parseFen fen = Returns r" using parseFen_Returns by blast
  show ?thesis
  proof (cases r)
    case (Ok s)
    then show ?thesis using r by simp
  next
    case (Err e)
    then show ?thesis using r by (cases e) simp
  qed
qed

lemma parseBoardFen_loop_result:
  "(\<exists>b. parseBoardFen_loop s B r f = Ok b) \<or> parseBoardFen_loop s B r f = Err (FenError ERR_BOARD)"
proof (induction s B r f rule: parseBoardFen_loop.induct)
  case (1 B r f)
  then show ?case by simp
next
  case (2 c rest B r f)
  then show ?case
    by (simp add: Let_def split: option.split list.split)
qed

lemma parsePockets_loop_result:
  "(\<exists>m. parsePockets_loop s M = Ok m) \<or> parsePockets_loop s M = Err (FenError ERR_POCKETS)"
  by (induction s arbitrary: M) (auto split: option.split)

lemma parseCastlingFen_result:
  "(\<exists>u. parseCastlingFen b s = Ok u) \<or> parseCastlingFen b s = Err (FenError ERR_CASTLING)"
  by (simp add: parseCastlingFen_def)

lemma parseRemainingChecks_result:
  "(\<exists>rc. parseRemainingChecks s = Ok rc) \<or> parseRemainingChecks s = Err (FenError ERR_REMAINING_CHECKS)"
  by (simp add: parseRemainingChecks_def Let_def)

text \<open>
  C3. On every input string \<^verbatim>\<open>parseFen\<close> returns (the one call that could throw, on
  the first part of the split input, always has a part to work on), and what it returns
  is \<^verbatim>\<open>ok\<close> with a setup or \<^verbatim>\<open>err\<close> with a \<^verbatim>\<open>FenError\<close> of one of the codes. Each
  sub-parser is a total function that returns \<^verbatim>\<open>ok\<close> with its value or \<^verbatim>\<open>err\<close> with
  the error code of its own.
\<close>

theorem parsers_return_results:
  "((\<exists>s. parseFen fen = Returns (Ok s)) \<or> (\<exists>k. parseFen fen = Returns (Err (FenError k))))
   \<and> ((\<exists>b. parseBoardFen str = Ok b) \<or> parseBoardFen str = Err (FenError ERR_BOARD))
   \<and> ((\<exists>m. parsePockets str = Ok m) \<or> parsePockets str = Err (FenError ERR_POCKETS))
   \<and> ((\<exists>u. parseCastlingFen brd str = Ok u) \<or> parseCastlingFen brd str = Err (FenError ERR_CASTLING))
   \<and> ((\<exists>rc. parseRemainingChecks str = Ok rc)
        \<or> parseRemainingChecks str = Err (FenError ERR_REMAINING_CHECKS))"
  using parseFen_Ok_or_Err [of fen] parseBoardFen_loop_result [of str Board_empty 7 0]
    parsePockets_loop_result [of str Material_empty] parseCastlingFen_result [of brd str]
    parseRemainingChecks_result [of str]
  unfolding parseBoardFen_def parsePockets_def by blast

lemma parseFen_Ok_fields:
  assumes "parseFen fen = Returns (Ok s)"
  shows "\<exists>b p t. parseFen_fields b p t (drop 2 (splitOn fen CHR '' '')) = Ok s"
proof -
  obtain x xs where sp: "splitOn fen CHR '' '' = x # xs"
    using splitOn_not_Nil [of fen "CHR '' ''"] by (cases "splitOn fen CHR '' ''") auto
  show ?thesis
  proof (cases xs)
    case Nil
    then show ?thesis using assms sp
      by (auto simp: parseFen_def shift_def defined_def chain_Ok_iff split: option.splits prod.splits)
  next
    case (Cons y ys)
    then show ?thesis using assms sp
      by (auto simp: parseFen_def shift_def defined_def chain_Ok_iff
          split: option.splits prod.splits if_splits)
  qed
qed

lemma parseFen_fields_fullmoves:
  assumes "parseFen_fields b p t parts = Ok s"
  shows "1 \<le> fullmoves s"
  using assms unfolding parseFen_fields_def Let_def
  by (auto simp: chain_Ok_iff mapResult_Ok_iff split: prod.splits if_splits)

theorem parsers_return_results_witness:
  "parseFen ''8/8/8/8/8/8/8/8 w - - 0 0'' =
     Returns (Ok \<lparr>board = Board_empty, pockets = None, turn = White, unmovedRooks = {},
       epSquare = None, remainingChecks = None, halfmoves = 0, fullmoves = 1\<rparr>)
   \<and> parseFen ''9 x'' = Returns (Err (FenError ERR_TURN))
   \<and> parseBoardFen ''9'' = Err (FenError ERR_BOARD)
   \<and> parsePockets ''9'' = Err (FenError ERR_POCKETS)
   \<and> parseCastlingFen Board_empty ''9'' = Err (FenError ERR_CASTLING)
   \<and> parseRemainingChecks ''9'' = Err (FenError ERR_REMAINING_CHECKS)"
  using parsers_return_results [of "''8/8/8/8/8/8/8/8 w - - 0 0''" "''9''" Board_empty]
    parsers_return_results [of "''9 x''" "''9''" Board_empty]
  by (simp add: fen_eval)

section \<open>The fields of a FEN, part by part\<close>

lemma parseFen_parts: "parseFen fen = parseFen_parts (splitOn fen CHR '' '')"
  by (simp add: parseFen_def parseFen_parts_def)

lemma plus_not_digit: "\<not> isDigit CHR ''+''"
  by (simp add: isDigit_def char_eval)

lemma plus_not_uint: "CHR ''+'' \<in> set s \<Longrightarrow> parseSmallUint s = None"
  using plus_not_digit by (auto simp: parseSmallUint_def list_all_iff)

lemma list_shape7:
  obtains "xs = []" | a where "xs = [a]" | a b where "xs = [a, b]"
  | a b c where "xs = [a, b, c]" | a b c d where "xs = [a, b, c, d]"
  | a b c d e where "xs = [a, b, c, d, e]" | a b c d e f where "xs = [a, b, c, d, e, f]"
  | a b c d e f g where "xs = [a, b, c, d, e, f, g]"
  | a b c d e f g h rest where "xs = a # b # c # d # e # f # g # h # rest"
  by (metis list.exhaust)

lemma fields0: "parseFen_fields b p t [] =
   mapResult p (\<lambda>pk. \<lparr>board = b, pockets = pk, turn = t, unmovedRooks = {}, epSquare = None,
      remainingChecks = None, halfmoves = 0, fullmoves = 1\<rparr>)"
  by (cases p) (simp_all add: parseFen_fields_def shift_def defined_def SquareSet_empty_def)

lemmas fields_unfold = parseFen_parts_def parseFen_fields_def shift_def defined_def Let_def
  chain_Ok_iff mapResult_Ok_iff SquareSet_empty_def includes_char_def

lemma omitted_defaults:
  assumes "parseFen_parts parts = Returns (Ok s)"
  shows "omittedDefaults parts s"
proof (cases parts rule: list_shape7)
  case 1
  then show ?thesis using assms by (simp add: fields_unfold)
next
  case (2 a)
  then show ?thesis using assms
    by (auto simp: fields_unfold omittedDefaults_def earlyChecks_def split: option.splits)
next
  case (3 a b)
  then show ?thesis using assms
    by (auto simp: fields_unfold omittedDefaults_def earlyChecks_def split: option.splits if_splits)
next
  case (4 a b c)
  then show ?thesis using assms
    by (auto simp: fields_unfold omittedDefaults_def earlyChecks_def split: option.splits if_splits)
next
  case (5 a b c d)
  then show ?thesis using assms
    by (auto simp: fields_unfold omittedDefaults_def earlyChecks_def split: option.splits if_splits)
next
  case (6 a b c d e)
  then show ?thesis using assms
    by (auto simp: fields_unfold omittedDefaults_def earlyChecks_def split: option.splits if_splits)
next
  case (7 a b c d e f)
  then show ?thesis using assms
    by (auto simp: fields_unfold omittedDefaults_def earlyChecks_def split: option.splits if_splits)
next
  case (8 a b c d e f g)
  then show ?thesis using assms
    by (auto simp: fields_unfold omittedDefaults_def earlyChecks_def split: option.splits if_splits)
next
  case (9 a b c d e f g h rest)
  then show ?thesis using assms
    by (auto simp: fields_unfold omittedDefaults_def earlyChecks_def split: option.splits if_splits)
qed

lemma splitOn_no_sep: "sep \<notin> set s \<Longrightarrow> splitOn s sep = [s]"
  by (induction s) auto

lemma splitOn_append_sep:
  "sep \<notin> set x \<Longrightarrow> splitOn (x @ sep # rest) sep = x # splitOn rest sep"
  by (induction x) auto

lemma splitOn_join:
  assumes "ps \<noteq> []" "\<forall>p \<in> set ps. sep \<notin> set p"
  shows "splitOn (join ps [sep]) sep = ps"
  using assms
proof (induction ps "[sep]" rule: join.induct)
  case 1
  then show ?case by simp
next
  case (2 x)
  then show ?case by (simp add: splitOn_no_sep)
next
  case (3 x y ys)
  then show ?case by (simp add: splitOn_append_sep)
qed

lemma splitOn_parts_no_sep: "\<forall>p \<in> set (splitOn s sep). sep \<notin> set p"
  by (induction s) (auto split: list.splits)

lemma join_splitOn: "join (splitOn s sep) [sep] = s"
proof (induction s)
  case Nil
  then show ?case by simp
next
  case (Cons c s)
  obtain x xs where sp: "splitOn s sep = x # xs"
    using splitOn_not_Nil [of s sep] by (cases "splitOn s sep") auto
  show ?case
  proof (cases "c = sep")
    case True
    then show ?thesis using Cons sp by simp
  next
    case False
    then show ?thesis using Cons sp by (cases xs) simp_all
  qed
qed

section \<open>The fullmove number\<close>






section \<open>Remaining checks given twice\<close>

lemma early_then_no_later_plus:
  assumes "parseFen_parts parts = Returns (Ok s)" "earlyChecks parts"
  shows "length parts \<le> 7 \<and> (\<forall>p \<in> set (drop 5 parts). CHR ''+'' \<notin> set p)"
proof (cases parts rule: list_shape7)
  case 1
  then show ?thesis by simp
next
  case (2 a)
  then show ?thesis by simp
next
  case (3 a b)
  then show ?thesis by simp
next
  case (4 a b c)
  then show ?thesis by simp
next
  case (5 a b c d)
  then show ?thesis by simp
next
  case (6 a b c d e)
  then show ?thesis by simp
next
  case (7 a b c d e f)
  then show ?thesis using assms
    by (auto simp: fields_unfold earlyChecks_def plus_not_uint split: option.splits if_splits)
next
  case (8 a b c d e f g)
  then show ?thesis using assms
    by (auto simp: fields_unfold earlyChecks_def plus_not_uint split: option.splits if_splits)
next
  case (9 a b c d e f g h rest)
  then show ?thesis using assms
    by (auto simp: fields_unfold earlyChecks_def plus_not_uint split: option.splits if_splits)
qed

text \<open>
  C7. When the fifth part of a FEN is a remaining-checks token (it contains \<^verbatim>\<open>+\<close>) and
  a later part is one again (a later part that contains \<^verbatim>\<open>+\<close>, or any part in the
  eighth place or beyond, where \<^verbatim>\<open>parseFen\<close> reads the remaining checks), \<^verbatim>\<open>parseFen\<close>
  returns an error. It does so whether or not the two tokens agree.
\<close>

theorem parseFen_repeated_checks_rejected:
  assumes "earlyChecks (splitOn fen CHR '' '')"
    and "4 < i" "i < length (splitOn fen CHR '' '')"
    and "7 \<le> i \<or> CHR ''+'' \<in> set (splitOn fen CHR '' '' ! i)"
  shows "\<exists>k. parseFen fen = Returns (Err (FenError k))"
proof (rule ccontr)
  assume "\<not> ?thesis"
  then obtain s where ok: "parseFen_parts (splitOn fen CHR '' '') = Returns (Ok s)"
    using parseFen_Ok_or_Err [of fen] by (auto simp: parseFen_parts)
  let ?parts = "splitOn fen CHR '' ''"
  have l: "length ?parts \<le> 7" and np: "\<forall>p \<in> set (drop 5 ?parts). CHR ''+'' \<notin> set p"
    using early_then_no_later_plus [OF ok assms(1)] by simp_all
  have "?parts ! i = drop 5 ?parts ! (i - 5)" using assms(2,3) by simp
  moreover have "i - 5 < length (drop 5 ?parts)" using assms(2,3) by simp
  ultimately have "?parts ! i \<in> set (drop 5 ?parts)" by (metis nth_mem)
  then have "CHR ''+'' \<notin> set (?parts ! i)" using np by blast
  then show False using assms(3,4) l by simp
qed

theorem parseFen_repeated_checks_rejected_witness:
  "earlyChecks (splitOn ''8/8/8/8/8/8/8/8 w - - 1+1 0 1 2+2'' CHR '' '')
   \<and> (4::nat) < 7 \<and> 7 < length (splitOn ''8/8/8/8/8/8/8/8 w - - 1+1 0 1 2+2'' CHR '' '')
   \<and> (\<exists>k. parseFen ''8/8/8/8/8/8/8/8 w - - 1+1 0 1 2+2'' = Returns (Err (FenError k)))"
  using parseFen_repeated_checks_rejected [of "''8/8/8/8/8/8/8/8 w - - 1+1 0 1 2+2''" 7]
  by (simp add: earlyChecks_def)

section \<open>Omitted fields take their defaults\<close>

lemmas reset_unfold = fields_unfold resetField_def earlyChecks_def plus_not_uint

lemma drop_last_reset:
  assumes "parseFen_parts (ps @ [x]) = Returns (Ok s)" "ps \<noteq> []"
  shows "parseFen_parts ps = Returns (Ok (resetField (length ps) (earlyChecks (ps @ [x])) s))"
proof (cases ps rule: list_shape7)
  case 1
  then show ?thesis using assms by simp
next
  case (2 a)
  then show ?thesis using assms
    by (auto simp: reset_unfold split: option.splits if_splits)
next
  case (3 a b)
  then show ?thesis using assms
    by (auto simp: reset_unfold split: option.splits if_splits)
next
  case (4 a b c)
  then show ?thesis using assms
    by (auto simp: reset_unfold split: option.splits if_splits)
next
  case (5 a b c d)
  then show ?thesis using assms
    by (auto simp: reset_unfold split: option.splits if_splits)
next
  case (6 a b c d e)
  then show ?thesis using assms
    by (auto simp: reset_unfold split: option.splits if_splits)
next
  case (7 a b c d e f)
  then show ?thesis using assms
    by (auto simp: reset_unfold split: option.splits if_splits)
next
  case (8 a b c d e f g)
  then show ?thesis using assms
    by (auto simp: reset_unfold split: option.splits if_splits)
next
  case (9 a b c d e f g h rest)
  then show ?thesis using assms
    by (auto simp: reset_unfold split: option.splits if_splits)
qed

lemma earlyChecks_take: "5 \<le> n \<Longrightarrow> earlyChecks (take n ps) = earlyChecks ps"
  by (auto simp: earlyChecks_def)

lemma earlyChecks_short: "length ps < 5 \<Longrightarrow> \<not> earlyChecks ps"
  by (simp add: earlyChecks_def)

lemma earlyChecks_butlast: "5 \<le> length ps \<Longrightarrow> earlyChecks (ps @ [x]) = earlyChecks ps"
  by (simp add: earlyChecks_def nth_append)

lemma keptFields_refl: "keptFields ps s s"
  by (simp add: keptFields_def)

lemma keptFields_keptAt: "keptFields parts s s' = keptAt (length parts) (earlyChecks parts) s s'"
  by (simp only: keptFields_def keptAt_def)

lemma keptAt_trans:
  assumes "keptAt m e s s1" "keptAt k e' s1 s'" "k \<le> m" "5 \<le> k \<longrightarrow> e' = e" "k < 5 \<longrightarrow> \<not> e'"
  shows "keptAt k e' s s'"
proof (cases e)
  case True
  show ?thesis
  proof (cases e')
    case True
    with \<open>e\<close> assms show ?thesis by (simp add: keptAt_def)
  next
    case False
    with \<open>e\<close> assms show ?thesis by (simp add: keptAt_def)
  qed
next
  case False
  show ?thesis
  proof (cases e')
    case True
    with \<open>\<not> e\<close> assms show ?thesis by (simp add: keptAt_def)
  next
    case False
    with \<open>\<not> e\<close> assms show ?thesis by (simp add: keptAt_def)
  qed
qed

lemma resetField_other: "k = 0 \<or> 7 \<le> k \<Longrightarrow> resetField k e s = s"
proof -
  assume "k = 0 \<or> 7 \<le> k"
  then have "k \<noteq> 1" "k \<noteq> 2" "k \<noteq> 3" "k \<noteq> 4" "k \<noteq> 5" "k \<noteq> 6" by arith+
  then show ?thesis unfolding resetField_def by (simp only: if_False)
qed

lemma keptFields_reset: "keptFields ps s (resetField (length ps) (earlyChecks (ps @ [x])) s)"
proof -
  consider "length ps = 1" | "length ps = 2" | "length ps = 3" | "length ps = 4"
    | "length ps = 5" | "length ps = 6" | "length ps = 0 \<or> 7 \<le> length ps"
    by linarith
  then show ?thesis
  proof cases
    case 1
    then have "\<not> earlyChecks ps" by (intro earlyChecks_short) simp
    then show ?thesis using 1 by (simp add: keptFields_def resetField_def)
  next
    case 2
    then have "\<not> earlyChecks ps" by (intro earlyChecks_short) simp
    then show ?thesis using 2 by (simp add: keptFields_def resetField_def)
  next
    case 3
    then have "\<not> earlyChecks ps" by (intro earlyChecks_short) simp
    then show ?thesis using 3 by (simp add: keptFields_def resetField_def)
  next
    case 4
    then have "\<not> earlyChecks ps" by (intro earlyChecks_short) simp
    then show ?thesis using 4 by (simp add: keptFields_def resetField_def)
  next
    case 5
    then have "earlyChecks (ps @ [x]) = earlyChecks ps" by (intro earlyChecks_butlast) simp
    then show ?thesis using 5 by (simp add: keptFields_def resetField_def)
  next
    case 6
    then have "earlyChecks (ps @ [x]) = earlyChecks ps" by (intro earlyChecks_butlast) simp
    then show ?thesis using 6 by (simp add: keptFields_def resetField_def)
  next
    case 7
    then have "resetField (length ps) (earlyChecks (ps @ [x])) s = s"
      by (rule resetField_other)
    then show ?thesis by (simp add: keptFields_refl)
  qed
qed

lemma keptFields_trans:
  assumes "keptFields ps s s1" "keptFields (take n ps) s1 s'"
  shows "keptFields (take n ps) s s'"
proof -
  have 1: "length (take n ps) \<le> length ps" by simp
  have 2: "5 \<le> length (take n ps) \<longrightarrow> earlyChecks (take n ps) = earlyChecks ps"
    by (simp add: earlyChecks_take)
  have 3: "length (take n ps) < 5 \<longrightarrow> \<not> earlyChecks (take n ps)"
    using earlyChecks_short by blast
  show ?thesis
    using assms unfolding keptFields_keptAt by (rule keptAt_trans [OF _ _ 1 2 3])
qed

lemma prefix_parses:
  assumes "parseFen_parts parts = Returns (Ok s)" "1 \<le> n"
  shows "\<exists>s'. parseFen_parts (take n parts) = Returns (Ok s') \<and> keptFields (take n parts) s s'"
  using assms(1)
proof (induction parts arbitrary: s rule: rev_induct)
  case Nil
  then show ?case by (simp add: fields_unfold)
next
  case (snoc x ps)
  show ?case
  proof (cases "n \<le> length ps")
    case True
    then have ne: "ps \<noteq> []" using assms(2) by auto
    define s1 where "s1 = resetField (length ps) (earlyChecks (ps @ [x])) s"
    have s1: "parseFen_parts ps = Returns (Ok s1)"
      unfolding s1_def by (rule drop_last_reset [OF snoc.prems ne])
    have k1: "keptFields ps s s1" unfolding s1_def by (rule keptFields_reset)
    obtain s' where s': "parseFen_parts (take n ps) = Returns (Ok s')" "keptFields (take n ps) s1 s'"
      using snoc.IH [OF s1] by blast
    have "keptFields (take n ps) s s'" by (rule keptFields_trans [OF k1 s'(2)])
    then show ?thesis using True s'(1) by auto
  next
    case False
    then show ?thesis using snoc.prems by (auto simp: keptFields_refl)
  qed
qed

lemma parseFen_board_only:
  assumes "CHR '' '' \<notin> set fen" "parseFen_boardAndPockets fen = Some (Ok b, Ok p)"
  shows "parseFen fen =
     Returns (Ok \<lparr>board = b, pockets = p, turn = White, unmovedRooks = {}, epSquare = None,
       remainingChecks = None, halfmoves = 0, fullmoves = 1\<rparr>)"
  using assms by (simp add: parseFen_parts splitOn_no_sep fields_unfold)

lemma parseFen_prefix:
  assumes "parseFen fen = Returns (Ok s)" "1 \<le> n"
  shows "\<exists>s'. parseFen (join (take n (splitOn fen CHR '' '')) '' '') = Returns (Ok s')
           \<and> omittedDefaults (take n (splitOn fen CHR '' '')) s'
           \<and> keptFields (take n (splitOn fen CHR '' '')) s s'"
proof -
  let ?parts = "splitOn fen CHR '' ''"
  have ok: "parseFen_parts ?parts = Returns (Ok s)" using assms(1) by (simp only: parseFen_parts)
  obtain s' where s': "parseFen_parts (take n ?parts) = Returns (Ok s')"
    "keptFields (take n ?parts) s s'"
    using prefix_parses [OF ok assms(2)] by blast
  have ne: "take n ?parts \<noteq> []" using assms(2) splitOn_not_Nil [of fen "CHR '' ''"] by simp
  have "\<forall>p \<in> set (take n ?parts). CHR '' '' \<notin> set p"
    using splitOn_parts_no_sep [of fen "CHR '' ''"] by (meson in_set_takeD)
  then have sp: "splitOn (join (take n ?parts) '' '') CHR '' '' = take n ?parts"
    by (rule splitOn_join [OF ne])
  have "parseFen (join (take n ?parts) '' '') = Returns (Ok s')"
    by (simp only: parseFen_parts sp s'(1))
  moreover have "omittedDefaults (take n ?parts) s'" by (rule omitted_defaults [OF s'(1)])
  ultimately show ?thesis using s'(2) by blast
qed

text \<open>
  C9. A FEN that is only a board part parses, when the board part does, to the setup
  with every other field at its default: white to move, no castling rights, no en
  passant square, no remaining checks, halfmove clock 0, fullmove number 1. More
  generally, when \<^verbatim>\<open>parseFen\<close> succeeds on a FEN it succeeds on every prefix of its
  parts (at least the board part), with the default in every field the prefix leaves
  out and the fields of the longer setup in the others.
\<close>

theorem parseFen_prefix_defaults:
  "(CHR '' '' \<notin> set fen \<and> parseFen_boardAndPockets fen = Some (Ok b, Ok p) \<longrightarrow>
      parseFen fen =
        Returns (Ok \<lparr>board = b, pockets = p, turn = White, unmovedRooks = {}, epSquare = None,
          remainingChecks = None, halfmoves = 0, fullmoves = 1\<rparr>))
   \<and> (parseFen fen = Returns (Ok s) \<and> 1 \<le> n \<longrightarrow>
      (\<exists>s'. parseFen (join (take n (splitOn fen CHR '' '')) '' '') = Returns (Ok s')
           \<and> omittedDefaults (take n (splitOn fen CHR '' '')) s'
           \<and> keptFields (take n (splitOn fen CHR '' '')) s s'))"
  using parseFen_board_only [of fen b p] parseFen_prefix [of fen s n] by blast

lemma parseFen_example_fields:
  "parseFen ''8/8/8/8/8/8/8/8 b - e3 1+2 3 4'' =
     Returns (Ok \<lparr>board = Board_empty, pockets = None, turn = Black, unmovedRooks = {},
       epSquare = Some 20, remainingChecks = Some (RemainingChecks 1 2), halfmoves = 3,
       fullmoves = 4\<rparr>)"
  by (simp add: fen_eval)

lemma parseFen_boardAndPockets_example:
  "parseFen_boardAndPockets ''8/8/8/8/8/8/8/8'' = Some (Ok Board_empty, Ok None)"
  by (simp add: fen_eval)

theorem parseFen_prefix_defaults_witness:
  "CHR '' '' \<notin> set ''8/8/8/8/8/8/8/8''
   \<and> parseFen_boardAndPockets ''8/8/8/8/8/8/8/8'' = Some (Ok Board_empty, Ok None)
   \<and> parseFen ''8/8/8/8/8/8/8/8'' =
        Returns (Ok \<lparr>board = Board_empty, pockets = None, turn = White, unmovedRooks = {},
          epSquare = None, remainingChecks = None, halfmoves = 0, fullmoves = 1\<rparr>)
   \<and> parseFen ''8/8/8/8/8/8/8/8 b - e3 1+2 3 4'' =
        Returns (Ok \<lparr>board = Board_empty, pockets = None, turn = Black, unmovedRooks = {},
          epSquare = Some 20, remainingChecks = Some (RemainingChecks 1 2), halfmoves = 3,
          fullmoves = 4\<rparr>)
   \<and> (1::nat) \<le> 2
   \<and> join (take 2 (splitOn ''8/8/8/8/8/8/8/8 b - e3 1+2 3 4'' CHR '' '')) '' ''
        = ''8/8/8/8/8/8/8/8 b''
   \<and> (\<exists>s'. parseFen ''8/8/8/8/8/8/8/8 b'' = Returns (Ok s')
          \<and> omittedDefaults [''8/8/8/8/8/8/8/8'', ''b''] s'
          \<and> keptFields [''8/8/8/8/8/8/8/8'', ''b'']
                \<lparr>board = Board_empty, pockets = None, turn = Black, unmovedRooks = {},
                 epSquare = Some 20, remainingChecks = Some (RemainingChecks 1 2),
                 halfmoves = 3, fullmoves = 4\<rparr> s')"
  using parseFen_prefix_defaults
      [of "''8/8/8/8/8/8/8/8''" Board_empty None
          "\<lparr>board = Board_empty, pockets = None, turn = Black, unmovedRooks = {},
            epSquare = Some 20, remainingChecks = Some (RemainingChecks 1 2), halfmoves = 3,
            fullmoves = 4\<rparr>" 2]
    parseFen_prefix_defaults
      [of "''8/8/8/8/8/8/8/8 b - e3 1+2 3 4''" Board_empty None
          "\<lparr>board = Board_empty, pockets = None, turn = Black, unmovedRooks = {},
            epSquare = Some 20, remainingChecks = Some (RemainingChecks 1 2), halfmoves = 3,
            fullmoves = 4\<rparr>" 2]
    parseFen_example_fields parseFen_boardAndPockets_example
  by simp

section \<open>The board part\<close>

lemma charCode_lowerChar:
  "charCode (lowerChar c) = (if isUpperCode (charCode c) then charCode c + 32 else charCode c)"
proof (cases "isUpperCode (charCode c)")
  case True
  then have b: "0 \<le> charCode c + 32" "charCode c + 32 < 256"
    unfolding isUpperCode_def by linarith+
  have "lowerChar c = char_of (charCode c + 32)"
    using True unfolding lowerChar_def isUpperCode_def Let_def by (simp only: if_True)
  then have "charCode (lowerChar c) = (charCode c + 32) mod 256"
    by (simp only: charCode_char_of)
  also have "\<dots> = charCode c + 32" using b by simp
  finally show ?thesis using True by simp
next
  case False
  then have "lowerChar c = c"
    unfolding lowerChar_def isUpperCode_def Let_def by (simp only: if_False)
  then show ?thesis using False by simp
qed

lemma charToRole_single_letter:
  assumes "charToRole [x] = Some r"
  shows "x \<in> set ''PpNnBbRrQqKk''"
proof (rule ccontr)
  assume "x \<notin> set ''PpNnBbRrQqKk''"
  then have "charToRole [x] = None" by (simp add: charToRole_def)
  then show False using assms by simp
qed

lemma charToRole_single:
  assumes "charToRole [x] = Some r"
  shows "charCode x \<in> {80, 112, 78, 110, 66, 98, 82, 114, 81, 113, 75, 107}"
  using charToRole_single_letter [OF assms]
  apply (simp only: set_simps insert_iff empty_iff)
  apply (elim disjE)
  apply (simp_all add: char_eval)
  done

lemma charToPiece_code:
  assumes "charToPiece [c] = Some p"
  shows "charCode c \<in> {80, 112, 78, 110, 66, 98, 82, 114, 81, 113, 75, 107}"
proof -
  obtain r where "charToRole [lowerChar c] = Some r"
    using assms by (auto simp: charToPiece_def toLowerCase_def Let_def split: option.splits)
  then have "charCode (lowerChar c) \<in> {80, 112, 78, 110, 66, 98, 82, 114, 81, 113, 75, 107}"
    by (rule charToRole_single)
  then show ?thesis
    unfolding charCode_lowerChar isUpperCode_def by (auto split: if_splits)
qed

lemma letter_of_code:
  assumes "charCode c \<in> {80, 112, 78, 110, 66, 98, 82, 114, 81, 113, 75, 107}"
  shows "c \<in> set ''PNBRQKpnbrqk''"
proof -
  have "charCode c = 80 \<or> charCode c = 78 \<or> charCode c = 66 \<or> charCode c = 82
     \<or> charCode c = 81 \<or> charCode c = 75 \<or> charCode c = 112 \<or> charCode c = 110
     \<or> charCode c = 98 \<or> charCode c = 114 \<or> charCode c = 113 \<or> charCode c = 107"
    using assms by auto
  moreover have "charCode CHR ''P'' = 80" "charCode CHR ''N'' = 78" "charCode CHR ''B'' = 66"
    "charCode CHR ''R'' = 82" "charCode CHR ''Q'' = 81" "charCode CHR ''K'' = 75"
    "charCode CHR ''p'' = 112" "charCode CHR ''n'' = 110" "charCode CHR ''b'' = 98"
    "charCode CHR ''r'' = 114" "charCode CHR ''q'' = 113" "charCode CHR ''k'' = 107"
    by (simp_all add: char_eval)
  ultimately have "c = CHR ''P'' \<or> c = CHR ''N'' \<or> c = CHR ''B'' \<or> c = CHR ''R''
     \<or> c = CHR ''Q'' \<or> c = CHR ''K'' \<or> c = CHR ''p'' \<or> c = CHR ''n'' \<or> c = CHR ''b''
     \<or> c = CHR ''r'' \<or> c = CHR ''q'' \<or> c = CHR ''k''"
    by (metis charCode_inj)
  then show ?thesis by auto
qed

text \<open>
  On code units below 256 \<^verbatim>\<open>charToPiece\<close> reads the twelve piece letters and nothing else.
\<close>

lemma charToPiece_pieceOfLetter: "charToPiece [c] = pieceOfLetter c"
proof (cases "c \<in> set ''PNBRQKpnbrqk''")
  case True
  then show ?thesis
    apply (simp only: set_simps insert_iff empty_iff)
    apply (elim disjE)
    apply (simp_all add: pieceOfLetter_def charToPiece_def charToRole_def toLowerCase_def
        lowerChar_def Let_def char_eval)
    done
next
  case False
  have "charToPiece [c] = None"
  proof (cases "charToPiece [c]")
    case None
    then show ?thesis .
  next
    case (Some p)
    then show ?thesis using False letter_of_code [OF charToPiece_code [OF Some]] by simp
  qed
  moreover have "pieceOfLetter c = None" using False by (simp add: pieceOfLetter_def)
  ultimately show ?thesis by simp
qed

lemma piece_char_facts:
  assumes "charToPiece [c] = Some p"
  shows "parseIntChar c = None" "c \<notin> set ''123456789''" "c \<noteq> CHR ''/''" "c \<noteq> CHR ''~''"
proof -
  note cc = charToPiece_code [OF assms]
  show "parseIntChar c = None"
    using cc by (auto simp: parseIntChar_def isDigit_def char_eval)
  show "c \<notin> set ''123456789''"
    using cc by (auto simp: char_eval)
  show "c \<noteq> CHR ''/''" using cc by (auto simp: char_eval)
  show "c \<noteq> CHR ''~''" using cc by (auto simp: char_eval)
qed

lemma digit_char_iff:
  "c \<in> set ''123456789'' = (49 \<le> charCode c \<and> charCode c \<le> 57)"
proof
  assume "c \<in> set ''123456789''"
  then show "49 \<le> charCode c \<and> charCode c \<le> 57"
    apply (simp only: set_simps insert_iff empty_iff)
    apply (elim disjE)
    apply (simp_all add: char_eval)
    done
next
  assume a: "49 \<le> charCode c \<and> charCode c \<le> 57"
  then have "charCode c = 49 \<or> charCode c = 50 \<or> charCode c = 51 \<or> charCode c = 52
     \<or> charCode c = 53 \<or> charCode c = 54 \<or> charCode c = 55 \<or> charCode c = 56
     \<or> charCode c = 57" by arith
  moreover have "charCode CHR ''1'' = 49" "charCode CHR ''2'' = 50" "charCode CHR ''3'' = 51"
    "charCode CHR ''4'' = 52" "charCode CHR ''5'' = 53" "charCode CHR ''6'' = 54"
    "charCode CHR ''7'' = 55" "charCode CHR ''8'' = 56" "charCode CHR ''9'' = 57"
    by (simp_all add: char_eval)
  ultimately have "c = CHR ''1'' \<or> c = CHR ''2'' \<or> c = CHR ''3'' \<or> c = CHR ''4''
     \<or> c = CHR ''5'' \<or> c = CHR ''6'' \<or> c = CHR ''7'' \<or> c = CHR ''8'' \<or> c = CHR ''9''"
    by (metis charCode_inj)
  then show "c \<in> set ''123456789''" by auto
qed

lemma truthy_digit:
  "truthyNumber (parseIntChar c) = (c \<in> set ''123456789'')"
proof -
  have "charCode CHR ''0'' = 48" "charCode CHR ''9'' = 57" by (simp_all add: char_eval)
  then show ?thesis
    unfolding digit_char_iff truthyNumber_def parseIntChar_def isDigit_def digitValue_def
    by auto
qed

lemma digit_step:
  assumes "c \<in> set ''123456789''"
  shows "the (parseIntChar c) = digitValue c" "1 \<le> digitValue c" "c \<noteq> CHR ''/''"
proof -
  have z: "charCode CHR ''0'' = 48" "charCode CHR ''9'' = 57" "charCode CHR ''/'' = 47"
    by (simp_all add: char_eval)
  have r: "49 \<le> charCode c" "charCode c \<le> 57" using assms unfolding digit_char_iff by simp_all
  show "the (parseIntChar c) = digitValue c"
    using r z by (simp add: parseIntChar_def isDigit_def)
  show "1 \<le> digitValue c" using r z by (simp add: digitValue_def)
  show "c \<noteq> CHR ''/''" using r z by auto
qed

lemma place_replicate_None: "place B r f (replicate n None @ cells) = place B r (f + int n) cells"
  by (induction n arbitrary: f) (simp_all add: add.assoc)

lemma splitOn_hd_tl: "splitOn s CHR ''/'' = hdPart s # tlParts s"
  using splitOn_not_Nil [of s "CHR ''/''"] by (simp add: hdPart_def tlParts_def)

lemma parts_Nil: "hdPart [] = []" "tlParts [] = []"
  by (simp_all add: hdPart_def tlParts_def)

lemma parts_slash: "hdPart (CHR ''/'' # s) = []" "tlParts (CHR ''/'' # s) = hdPart s # tlParts s"
  using splitOn_hd_tl [of s] by (simp_all add: hdPart_def tlParts_def)

lemma parts_other:
  assumes "c \<noteq> CHR ''/''"
  shows "hdPart (c # s) = c # hdPart s" "tlParts (c # s) = tlParts s"
proof -
  obtain x xs where "splitOn s CHR ''/'' = x # xs"
    using splitOn_not_Nil [of s "CHR ''/''"] by (cases "splitOn s CHR ''/''") auto
  then show "hdPart (c # s) = c # hdPart s" "tlParts (c # s) = tlParts s"
    using assms by (simp_all add: hdPart_def tlParts_def)
qed

lemma loopSpec_rankSpec:
  "loopSpec s B r f =
     rankSpec (decodeRank (hdPart s)) (those (map decodeRank (tlParts s))) B r f"
  unfolding loopSpec_def rankSpec_def splitOn_hd_tl
  by (simp split: option.split)

lemma rankSpec_digit:
  "rankSpec (map_option (\<lambda>cells. replicate n None @ cells) first) rest B r f
     = rankSpec first rest B r (f + int n)"
  unfolding rankSpec_def
  by (cases first; cases rest) (simp_all add: place_replicate_None add.assoc add.commute)

lemma rankSpec_piece:
  "rankSpec (map_option (\<lambda>cells. Some p # cells) first) rest B r f
     = rankSpec first rest (Board_set B (f + r * 8) p) r (f + 1)"
  unfolding rankSpec_def
  by (cases first; cases rest) (simp_all add: add.assoc add.commute)

lemma rankSpec_None: "rankSpec None rest B r f = Err (FenError ERR_BOARD)"
  by (simp add: rankSpec_def)

lemma rankSpec_full:
  assumes "f \<ge> 8 \<or> r < 0"
  shows "rankSpec (map_option (\<lambda>cells. Some p # cells) first) rest B r f = Err (FenError ERR_BOARD)"
  using assms unfolding rankSpec_def
  by (cases first; cases rest) auto

lemma rankSpec_slash:
  "rankSpec (Some []) (those (first # rest)) B r 8
     = rankSpec first (those rest) B (r - 1) 0"
  unfolding rankSpec_def
  by (cases first; cases "those rest") auto

lemma rankSpec_slash_early:
  assumes "f \<noteq> 8"
  shows "rankSpec (Some []) rest B r f = Err (FenError ERR_BOARD)"
  using assms unfolding rankSpec_def by (cases rest) auto

lemma rankSpec_end:
  "rankSpec (Some []) (Some []) B r f =
     (if r \<noteq> 0 \<or> f \<noteq> 8 then Err (FenError ERR_BOARD) else Ok B)"
  unfolding rankSpec_def by auto

lemma decodeRank_digit:
  assumes "c \<in> set ''123456789''"
  shows "decodeRank (c # xs) =
     map_option (\<lambda>cells. replicate (nat (digitValue c)) None @ cells) (decodeRank xs)"
  using assms by (simp only: decodeRank.simps if_True)

lemma decodeRank_other:
  assumes "c \<notin> set ''123456789''" "charToPiece [c] = None"
  shows "decodeRank (c # xs) = None"
  using assms [unfolded charToPiece_pieceOfLetter]
  by (simp only: decodeRank.simps if_False option.case)

lemma decodeRank_promoted:
  assumes "charToPiece [c] = Some p"
  shows "decodeRank (c # CHR ''~'' # xs) =
     map_option (\<lambda>cells. Some (p\<lparr>promoted := True\<rparr>) # cells) (decodeRank xs)"
  using assms [unfolded charToPiece_pieceOfLetter] piece_char_facts(2) [OF assms] by simp

lemma decodeRank_piece:
  assumes "charToPiece [c] = Some p" "xs = [] \<or> hd xs \<noteq> CHR ''~''"
  shows "decodeRank (c # xs) = map_option (\<lambda>cells. Some p # cells) (decodeRank xs)"
proof (cases xs)
  case Nil
  then show ?thesis
    using assms(1) [unfolded charToPiece_pieceOfLetter] piece_char_facts(2) [OF assms(1)]
    by (simp only: decodeRank.simps if_False option.case list.case option.map)
next
  case (Cons n ys)
  then have "n \<noteq> CHR ''~''" using assms(2) by simp
  then show ?thesis
    using Cons assms(1) [unfolded charToPiece_pieceOfLetter] piece_char_facts(2) [OF assms(1)]
    by (simp only: decodeRank.simps(2) [of c] if_False option.case list.case)
qed

lemma slash_facts: "\<not> truthyNumber (parseIntChar CHR ''/'')" "charToPiece ''/'' = None"
  by (simp_all add: truthyNumber_def parseIntChar_def isDigit_def charToPiece_def charToRole_def
      toLowerCase_def lowerChar_def char_eval)

lemma hdPart_no_tilde:
  assumes "rest = [] \<or> hd rest \<noteq> CHR ''~''"
  shows "hdPart rest = [] \<or> hd (hdPart rest) \<noteq> CHR ''~''"
proof (cases rest)
  case Nil
  then show ?thesis by (simp add: parts_Nil)
next
  case (Cons n ys)
  then have n: "n \<noteq> CHR ''~''" using assms by simp
  show ?thesis
  proof (cases "n = CHR ''/''")
    case True
    then show ?thesis using Cons by (simp add: parts_slash)
  next
    case False
    then show ?thesis using Cons n by (simp add: parts_other)
  qed
qed

lemma loopSpec_piece:
  assumes "charToPiece [c] = Some p" "rest = [] \<or> hd rest \<noteq> CHR ''~''"
  shows "loopSpec (c # rest) B r f = loopSpec rest (Board_set B (f + r * 8) p) r (f + 1)"
proof -
  have c: "c \<noteq> CHR ''/''" by (rule piece_char_facts(3) [OF assms(1)])
  have "decodeRank (c # hdPart rest) = map_option (\<lambda>cells. Some p # cells) (decodeRank (hdPart rest))"
    by (rule decodeRank_piece [OF assms(1) hdPart_no_tilde [OF assms(2)]])
  then show ?thesis
    by (simp only: loopSpec_rankSpec parts_other [OF c] rankSpec_piece)
qed

lemma loopSpec_promoted:
  assumes "charToPiece [c] = Some p"
  shows "loopSpec (c # CHR ''~'' # rest) B r f
     = loopSpec rest (Board_set B (f + r * 8) (p\<lparr>promoted := True\<rparr>)) r (f + 1)"
proof -
  have c: "c \<noteq> CHR ''/''" by (rule piece_char_facts(3) [OF assms(1)])
  have t: "CHR ''~'' \<noteq> CHR ''/''" by simp
  show ?thesis
    by (simp only: loopSpec_rankSpec parts_other [OF c] parts_other [OF t]
        decodeRank_promoted [OF assms] rankSpec_piece)
qed

lemma loopSpec_piece_full:
  assumes "charToPiece [c] = Some p" "f \<ge> 8 \<or> r < 0"
  shows "loopSpec (c # rest) B r f = Err (FenError ERR_BOARD)"
proof -
  have c: "c \<noteq> CHR ''/''" by (rule piece_char_facts(3) [OF assms(1)])
  show ?thesis
  proof (cases "rest = [] \<or> hd rest \<noteq> CHR ''~''")
    case True
    have "decodeRank (c # hdPart rest) = map_option (\<lambda>cells. Some p # cells) (decodeRank (hdPart rest))"
      by (rule decodeRank_piece [OF assms(1) hdPart_no_tilde [OF True]])
    then show ?thesis
      by (simp only: loopSpec_rankSpec parts_other [OF c] rankSpec_full [OF assms(2)])
  next
    case False
    then obtain ys where r: "rest = CHR ''~'' # ys" by (cases rest) auto
    have t: "CHR ''~'' \<noteq> CHR ''/''" by simp
    show ?thesis
      by (simp only: r loopSpec_rankSpec parts_other [OF c] parts_other [OF t]
          decodeRank_promoted [OF assms(1)] rankSpec_full [OF assms(2)])
  qed
qed

lemma loopSpec_digit:
  assumes "c \<in> set ''123456789''"
  shows "loopSpec (c # rest) B r f = loopSpec rest B r (f + digitValue c)"
proof -
  have c: "c \<noteq> CHR ''/''" by (rule digit_step(3) [OF assms])
  have d: "int (nat (digitValue c)) = digitValue c" using digit_step(2) [OF assms] by simp
  show ?thesis
    by (simp only: loopSpec_rankSpec parts_other [OF c] decodeRank_digit [OF assms] rankSpec_digit d)
qed

lemma loopSpec_other:
  assumes "c \<noteq> CHR ''/''" "c \<notin> set ''123456789''" "charToPiece [c] = None"
  shows "loopSpec (c # rest) B r f = Err (FenError ERR_BOARD)"
  by (simp only: loopSpec_rankSpec parts_other [OF assms(1)] decodeRank_other [OF assms(2,3)]
      rankSpec_None)

lemma loopSpec_slash:
  "loopSpec (CHR ''/'' # rest) B r f =
     (if f = 8 then loopSpec rest B (r - 1) 0 else Err (FenError ERR_BOARD))"
proof (cases "f = 8")
  case True
  have "rankSpec (Some []) (those (decodeRank (hdPart rest) # map decodeRank (tlParts rest))) B r 8
      = rankSpec (decodeRank (hdPart rest)) (those (map decodeRank (tlParts rest))) B (r - 1) 0"
    by (rule rankSpec_slash)
  then show ?thesis using True
    by (simp add: loopSpec_rankSpec parts_slash)
next
  case False
  then show ?thesis
    by (simp add: loopSpec_rankSpec parts_slash rankSpec_slash_early)
qed

lemma loopSpec_Nil:
  "loopSpec [] B r f = (if r \<noteq> 0 \<or> f \<noteq> 8 then Err (FenError ERR_BOARD) else Ok B)"
  by (simp add: loopSpec_rankSpec parts_Nil rankSpec_end)

lemma parseBoardFen_loop_spec: "parseBoardFen_loop s B r f = loopSpec s B r f"
proof (induction s B r f rule: parseBoardFen_loop.induct)
  case (1 B r f)
  show ?case by (simp add: loopSpec_Nil)
next
  case (2 c rest B r f)
  show ?case
  proof (cases "c = CHR ''/''")
    case True
    show ?thesis
    proof (cases "f = 8")
      case f8: True
      have "parseBoardFen_loop rest B (r - 1) 0 = loopSpec rest B (r - 1) 0"
        using True f8 by (intro "2.IH"(1)) simp
      then show ?thesis using True f8 by (simp add: loopSpec_slash)
    next
      case False
      then show ?thesis using True slash_facts
        by (simp add: loopSpec_slash Let_def)
    qed
  next
    case nslash: False
    show ?thesis
    proof (cases "c \<in> set ''123456789''")
      case True
      then have tr: "truthyNumber (parseIntChar c)" by (simp add: truthy_digit)
      have "parseBoardFen_loop rest B r (f + the (parseIntChar c))
          = loopSpec rest B r (f + the (parseIntChar c))"
        using nslash tr by (intro "2.IH"(2)) simp_all
      then show ?thesis using nslash tr True
        by (simp add: Let_def loopSpec_digit digit_step(1))
    next
      case False
      then have ntr: "\<not> truthyNumber (parseIntChar c)" by (simp add: truthy_digit)
      show ?thesis
      proof (cases "charToPiece [c]")
        case None
        then show ?thesis using nslash ntr False
          by (simp add: Let_def loopSpec_other)
      next
        case (Some p)
        show ?thesis
        proof (cases "f \<ge> 8 \<or> r < 0")
          case True
          then show ?thesis using nslash ntr Some
            by (simp add: Let_def loopSpec_piece_full)
        next
          case inb: False
          show ?thesis
          proof (cases rest)
            case Nil
            have "parseBoardFen_loop rest (Board_set B (f + r * 8) p) r (f + 1)
                = loopSpec rest (Board_set B (f + r * 8) p) r (f + 1)"
              using nslash ntr inb Some Nil by (intro "2.IH"(3)) simp_all
            then show ?thesis using nslash ntr inb Some Nil
              by (simp add: Let_def loopSpec_piece)
          next
            case (Cons n rest')
            show ?thesis
            proof (cases "n = CHR ''~''")
              case True
              have "parseBoardFen_loop rest' (Board_set B (f + r * 8) (p\<lparr>promoted := True\<rparr>)) r (f + 1)
                  = loopSpec rest' (Board_set B (f + r * 8) (p\<lparr>promoted := True\<rparr>)) r (f + 1)"
                using nslash ntr inb Some Cons True by (intro "2.IH"(4)) simp_all
              then show ?thesis using nslash ntr inb Some Cons True
                by (simp add: Let_def loopSpec_promoted)
            next
              case False
              have "parseBoardFen_loop rest (Board_set B (f + r * 8) p) r (f + 1)
                  = loopSpec rest (Board_set B (f + r * 8) p) r (f + 1)"
                using nslash ntr inb Some Cons False by (intro "2.IH"(5)) simp_all
              then show ?thesis using nslash ntr inb Some Cons False
                by (simp add: Let_def loopSpec_piece)
            qed
          qed
        qed
      qed
    qed
  qed
qed

lemma nth_Cons_pos_int: "0 < k \<Longrightarrow> (x # xs) ! nat k = xs ! nat (k - 1)"
  by (cases "nat k") (simp_all add: nat_diff_distrib)

lemma place_apply:
  "place B r f cells sq =
     (if f + r * 8 \<le> sq \<and> sq < f + r * 8 + int (length cells)
      then (case cells ! nat (sq - (f + r * 8)) of Some p \<Rightarrow> Some p | None \<Rightarrow> B sq)
      else B sq)"
proof (induction B r f cells rule: place.induct)
  case (1 B r f)
  show ?case by auto
next
  case (2 B r f cells)
  consider "sq < f + r * 8" | "sq = f + r * 8" | "f + r * 8 < sq" by linarith
  then show ?case
  proof cases
    case 1
    then show ?thesis using 2 by simp
  next
    case 2
    then show ?thesis using "2.IH" by simp
  next
    case 3
    then have "(None # cells) ! nat (sq - (f + r * 8)) = cells ! nat (sq - (f + r * 8) - 1)"
      by (intro nth_Cons_pos_int) simp
    moreover have "sq - (f + r * 8) - 1 = sq - (f + 1 + r * 8)" by simp
    ultimately show ?thesis using 3 "2.IH" by simp
  qed
next
  case (3 B r f p cells)
  have bs: "Board_set B (f + r * 8) p sq = (if sq = f + r * 8 then Some p else B sq)"
    by (simp add: Board_set_def)
  note IH = "3.IH" [unfolded bs]
  consider "sq < f + r * 8" | "sq = f + r * 8" | "f + r * 8 < sq" by linarith
  then show ?case
  proof cases
    case 1
    then show ?thesis using IH by simp
  next
    case 2
    then show ?thesis using IH by simp
  next
    case 3
    then have "(Some p # cells) ! nat (sq - (f + r * 8)) = cells ! nat (sq - (f + r * 8) - 1)"
      by (intro nth_Cons_pos_int) simp
    moreover have "sq - (f + r * 8) - 1 = sq - (f + 1 + r * 8)" by simp
    ultimately show ?thesis using 3 IH by simp
  qed
qed

lemma placeRanks_apply:
  assumes "list_all (\<lambda>cells. length cells = 8) ranks"
  shows "placeRanks B r ranks sq =
     (if r * 8 + 8 - 8 * int (length ranks) \<le> sq \<and> sq < r * 8 + 8
      then (case ranks ! nat (r - sq div 8) ! nat (sq mod 8) of
              Some p \<Rightarrow> Some p | None \<Rightarrow> B sq)
      else B sq)"
  using assms
proof (induction ranks arbitrary: B r)
  case Nil
  show ?case by auto
next
  case (Cons cells ranks)
  have len: "length cells = 8" and rest: "list_all (\<lambda>cells. length cells = 8) ranks"
    using Cons.prems by simp_all
  note IH = Cons.IH [OF rest, of "place B r 0 cells" "r - 1"]
  consider "sq < r * 8" | "r * 8 \<le> sq" "sq < r * 8 + 8" | "r * 8 + 8 \<le> sq" by linarith
  then show ?case
  proof cases
    case 1
    then have d: "sq div 8 < r" by linarith
    then have n: "(cells # ranks) ! nat (r - sq div 8) = ranks ! nat (r - 1 - sq div 8)"
      using nth_Cons_pos_int [of "r - sq div 8" cells ranks] by (simp add: algebra_simps)
    have pl: "place B r 0 cells sq = B sq" using 1 by (simp add: place_apply)
    have "placeRanks B r (cells # ranks) sq = placeRanks (place B r 0 cells) (r - 1) ranks sq"
      by simp
    also have "\<dots> = (if (r - 1) * 8 + 8 - 8 * int (length ranks) \<le> sq \<and> sq < (r - 1) * 8 + 8
        then (case ranks ! nat (r - 1 - sq div 8) ! nat (sq mod 8) of
                Some p \<Rightarrow> Some p | None \<Rightarrow> B sq)
        else B sq)"
      unfolding IH pl by (rule refl)
    finally show ?thesis unfolding n using 1 by (simp add: algebra_simps)
  next
    case 2
    then have d: "sq div 8 = r" by linarith
    have m: "sq mod 8 = sq - r * 8" using d by (simp add: minus_div_mult_eq_mod [symmetric])
    have pl: "place B r 0 cells sq =
        (case cells ! nat (sq - r * 8) of Some p \<Rightarrow> Some p | None \<Rightarrow> B sq)"
      using 2 len by (simp add: place_apply)
    have "placeRanks B r (cells # ranks) sq = placeRanks (place B r 0 cells) (r - 1) ranks sq"
      by simp
    also have "\<dots> = place B r 0 cells sq" unfolding IH using 2 by simp
    finally show ?thesis unfolding pl using 2 d m by simp
  next
    case 3
    then have pl: "place B r 0 cells sq = B sq" using len by (simp add: place_apply)
    have "placeRanks B r (cells # ranks) sq = placeRanks (place B r 0 cells) (r - 1) ranks sq"
      by simp
    also have "\<dots> = place B r 0 cells sq" unfolding IH using 3 by simp
    finally show ?thesis unfolding pl using 3 by simp
  qed
qed

lemma placeRanks_boardOfRanks:
  assumes "list_all (\<lambda>cells. length cells = 8) ranks" "length ranks = 8"
  shows "placeRanks Board_empty 7 ranks = boardOfRanks ranks"
proof
  fix sq
  show "placeRanks Board_empty 7 ranks sq = boardOfRanks ranks sq"
    using assms(2) unfolding placeRanks_apply [OF assms(1)] boardOfRanks_def Board_empty_def
    by (auto split: option.split)
qed

lemma loopSpec_decodeBoardFen:
  "loopSpec str Board_empty 7 0 =
     (case decodeBoardFen str of Some b \<Rightarrow> Ok b | None \<Rightarrow> Err (FenError ERR_BOARD))"
proof (cases "those (map decodeRank (splitOn str CHR ''/''))")
  case None
  then show ?thesis by (simp add: loopSpec_def decodeBoardFen_def)
next
  case (Some ranks)
  show ?thesis
  proof (cases ranks)
    case Nil
    then show ?thesis using Some by (simp add: loopSpec_def decodeBoardFen_def)
  next
    case (Cons cells rest)
    show ?thesis
    proof (cases "length ranks = 8 \<and> list_all (\<lambda>cells. length cells = 8) ranks")
      case True
      then have "placeRanks Board_empty 7 ranks = boardOfRanks ranks"
        by (intro placeRanks_boardOfRanks) simp_all
      then show ?thesis using True Some Cons
        by (simp add: loopSpec_def decodeBoardFen_def)
    next
      case False
      then show ?thesis using Some Cons
        by (auto simp: loopSpec_def decodeBoardFen_def)
    qed
  qed
qed

text \<open>
  On texts of code units below 256 \<^verbatim>\<open>parseBoardFen\<close> returns \<^verbatim>\<open>ok\<close> exactly on the texts
  that encode a board: eight ranks separated by \<^verbatim>\<open>/\<close>, from rank 8 down to rank 1, each
  a run of piece letters (a letter may be followed by \<^verbatim>\<open>~\<close> for promoted) and of digits
  for empty squares that covers exactly eight files; then the board is the encoded one.
  On every other such text it returns \<^verbatim>\<open>err\<close> with the board error.
\<close>

lemma parseBoardFen_decodes:
  "parseBoardFen str =
     (case decodeBoardFen str of Some b \<Rightarrow> Ok b | None \<Rightarrow> Err (FenError ERR_BOARD))"
  by (simp only: parseBoardFen_def parseBoardFen_loop_spec loopSpec_decodeBoardFen)

lemma parseBoardFen_example: "parseBoardFen ''8/8/8/8/8/8/8/8'' = Ok Board_empty"
  by (simp add: fen_eval)

lemma decodeBoardFen_examples:
  "decodeBoardFen ''8/8/8/8/8/8/8/8'' = Some Board_empty"
  "decodeBoardFen ''8/8/8/8/8/8/8/7'' = None"
  using parseBoardFen_decodes [of "''8/8/8/8/8/8/8/8''"]
    parseBoardFen_decodes [of "''8/8/8/8/8/8/8/7''"]
  by (auto simp: fen_eval split: option.splits)

section \<open>The board part beyond code unit 255\<close>

lemma charToRole_wide_Latin1: "charToRole_wide [Latin1 x] = charToRole [x]"
  by (simp add: charToRole_wide_def charToRole_def latin1_def)

lemma charToPiece_wide_read: "charToPiece_wide [u] = charToPiece [readUnit u]"
proof (cases u)
  case (Latin1 c)
  then show ?thesis
    by (simp add: charToPiece_wide_def charToPiece_def toLowerCase_wide_def toLowerCase_def
        charToRole_wide_Latin1 Let_def)
next
  case KelvinSign
  then show ?thesis
    by (simp add: charToPiece_wide_def charToPiece_def toLowerCase_wide_def toLowerCase_def
        charToRole_wide_def charToRole_def latin1_def lowerChar_def Let_def char_eval)
qed

lemma parseIntUnit_read: "parseIntUnit u = parseIntChar (readUnit u)"
  by (cases u) (simp_all add: parseIntChar_def isDigit_def char_eval)

lemma readUnit_mark:
  "(u = Latin1 CHR ''/'') = (readUnit u = CHR ''/'')"
  "(u = Latin1 CHR ''~'') = (readUnit u = CHR ''~'')"
  by (cases u; simp)+

text \<open>
  The code reads U+212A as it reads the letter \<^verbatim>\<open>K\<close>: on every text the second embedding
  returns what the first returns on the text with \<^verbatim>\<open>K\<close> in place of U+212A.
\<close>

lemma parseBoardFen_loop_wide_read:
  "parseBoardFen_loop_wide s B r f = parseBoardFen_loop (map readUnit s) B r f"
proof (induction s B r f rule: parseBoardFen_loop_wide.induct)
  case (1 B r f)
  show ?case by simp
next
  case (2 c rest B r f)
  show ?case
  proof (cases "c = Latin1 CHR ''/'' \<and> f = 8")
    case True
    then show ?thesis using 2(1) by simp
  next
    case False
    note nosl = False
    then have nosl': "\<not> (readUnit c = CHR ''/'' \<and> f = 8)" by (simp add: readUnit_mark)
    show ?thesis
    proof (cases "truthyNumber (parseIntUnit c)")
      case True
      then show ?thesis using nosl nosl' 2(2) [OF nosl refl True]
        by (auto simp: parseIntUnit_read readUnit_mark Let_def)
    next
      case False
      note nodig = False
      show ?thesis
      proof (cases "f \<ge> 8 \<or> r < 0")
        case True
        then show ?thesis using nosl nosl' nodig
          by (auto simp: parseIntUnit_read readUnit_mark Let_def)
      next
        case False
        note room = False
        show ?thesis
        proof (cases "charToPiece_wide [c]")
          case None
          then show ?thesis using nosl nosl' nodig room
            by (auto simp: parseIntUnit_read readUnit_mark charToPiece_wide_read [symmetric] Let_def)
        next
          case (Some p)
          show ?thesis
          proof (cases rest)
            case Nil
            then show ?thesis
              using nosl nosl' nodig room Some 2(3) [OF nosl refl nodig room refl Some Nil]
              by (auto simp: parseIntUnit_read readUnit_mark charToPiece_wide_read [symmetric] Let_def)
          next
            case (Cons n rest')
            show ?thesis
            proof (cases "n = Latin1 CHR ''~''")
              case True
              then show ?thesis
                using nosl nosl' nodig room Some Cons
                  2(4) [OF nosl refl nodig room refl Some Cons True]
                by (auto simp: parseIntUnit_read readUnit_mark charToPiece_wide_read [symmetric] Let_def)
            next
              case False
              then have "readUnit n \<noteq> CHR ''~''" by (simp add: readUnit_mark)
              then show ?thesis
                using nosl nosl' nodig room Some Cons False
                  2(5) [OF nosl refl nodig room refl Some Cons False]
                by (auto simp: parseIntUnit_read readUnit_mark charToPiece_wide_read [symmetric] Let_def)
            qed
          qed
        qed
      qed
    qed
  qed
qed

lemma parseBoardFen_wide_decodes:
  "parseBoardFen_wide str =
     (case decodeBoardFen (map readUnit str) of
        Some b \<Rightarrow> Ok b
      | None \<Rightarrow> Err (FenError ERR_BOARD))"
  by (simp only: parseBoardFen_wide_def parseBoardFen_loop_wide_read parseBoardFen_decodes
      [unfolded parseBoardFen_def])

text \<open>On code units below 256 the two embeddings are one.\<close>

lemma parseBoardFen_wide_latin1: "parseBoardFen_wide (latin1 str) = parseBoardFen str"
proof -
  have "map readUnit (latin1 str) = str" by (simp add: latin1_def comp_def)
  then show ?thesis
    by (simp only: parseBoardFen_wide_def parseBoardFen_def parseBoardFen_loop_wide_read)
qed

text \<open>
  C6. The claim has \<^verbatim>\<open>parseBoardFen\<close> return \<^verbatim>\<open>ok\<close> only on texts made of the piece
  characters, digits, \<^verbatim>\<open>~\<close> and \<^verbatim>\<open>/\<close>, and the board error on every other text. The code
  departs from it on the text \<^verbatim>\<open>8/8/8/8/8/8/8/7\<close> followed by U+212A KELVIN SIGN: the sign
  is none of the twelve piece letters, yet the code returns \<^verbatim>\<open>ok\<close>, with a board that
  holds a white king on h1 (square 7) and nothing else, because \<^verbatim>\<open>charToPiece\<close> lowers
  the sign to the letter \<^verbatim>\<open>k\<close>.
\<close>

theorem parseBoardFen_accepts_kelvin_sign:
  "parseBoardFen_wide (latin1 ''8/8/8/8/8/8/8/7'' @ [KelvinSign]) =
     Ok (Board_set Board_empty 7 \<lparr>role = King, color = White, promoted = False\<rparr>)
   \<and> KelvinSign \<notin> set (latin1 ''PNBRQKpnbrqk'')"
  by (simp add: parseBoardFen_wide_def latin1_def charToPiece_wide_def charToRole_wide_def
      toLowerCase_wide_def fen_eval)

theorem parseBoardFen_accepts_kelvin_sign_witness:
  "\<exists>b. parseBoardFen_wide (latin1 ''8/8/8/8/8/8/8/7'' @ [KelvinSign]) = Ok b
     \<and> b 7 = Some \<lparr>role = King, color = White, promoted = False\<rparr>"
  using parseBoardFen_accepts_kelvin_sign by (simp add: Board_set_def)

end
